theory Spec2Isabelle
  imports Complex_Main "HOL-Library.AList"
begin

section \<open>Combat engine (backend/src/services/combatService.ts)\<close>

text \<open>
  JavaScript numbers that carry durations, die values, roll totals and damage are modelled
  as \<open>int\<close>: the engine itself creates no duration but 1, and the dice are integers. Hit
  points and magic points, which \<open>resolveAction\<close> also takes from the caller's player
  snapshot, are a \<open>jsnumber\<close>: an integer or \<open>NaN\<close>, the one number that
  \<open>typeof x === 'number'\<close> admits and that \<open>Math.min\<close>, \<open>Math.max\<close>, subtraction and
  the comparisons treat apart: the first three return \<open>NaN\<close> when an argument is \<open>NaN\<close>,
  and every comparison with \<open>NaN\<close> is false.

  Entities are values: the model assumes that the entity objects of one battle are
  distinct objects (no object is listed twice in \<open>entities\<close>), so that a mutation of the
  object returned by \<open>Array.prototype.find\<close> is an update of the first list element that
  satisfies the predicate.
\<close>

datatype jsnumber = Num int | NaN

fun Math_min :: "jsnumber \<Rightarrow> jsnumber \<Rightarrow> jsnumber" where
  "Math_min (Num a) (Num b) = Num (min a b)"
| "Math_min _ _ = NaN"

fun Math_max :: "jsnumber \<Rightarrow> jsnumber \<Rightarrow> jsnumber" where
  "Math_max (Num a) (Num b) = Num (max a b)"
| "Math_max _ _ = NaN"

text \<open>The operators \<open>-\<close>, \<open><=\<close> and \<open>>\<close> on numbers.\<close>

fun js_minus :: "jsnumber \<Rightarrow> jsnumber \<Rightarrow> jsnumber" where
  "js_minus (Num a) (Num b) = Num (a - b)"
| "js_minus _ _ = NaN"

fun js_le :: "jsnumber \<Rightarrow> jsnumber \<Rightarrow> bool" where
  "js_le (Num a) (Num b) = (a \<le> b)"
| "js_le _ _ = False"

fun js_gt :: "jsnumber \<Rightarrow> jsnumber \<Rightarrow> bool" where
  "js_gt (Num a) (Num b) = (a > b)"
| "js_gt _ _ = False"

datatype CombatPhase = Starting | Player_turn | Enemy_turn | Resolving | Ended

datatype EntityType = Player | Enemy

record Status =
  key :: string
  duration :: int

record CombatEntity =
  ent_id :: string
  ent_type :: EntityType
  ent_name :: string
  hp :: jsnumber
  hp_max :: jsnumber
  mp :: "jsnumber option"
  mp_max :: "jsnumber option"
  statuses :: "Status list"

type_synonym Params = "(string \<times> string) list"

datatype CombatResult = Defeat | Victory

text \<open>
  A \<open>CombatEvent\<close> is \<open>{type, data}\<close> in the source; each constructor is one value of
  \<open>type\<close> and carries the fields of its \<open>data\<close> in the order the source writes them.
  \<open>ATTACK_RESOLVED\<close>: actor, target, hit, roll, bonus, total, critical, fumble, ac.
  \<open>DAMAGE_APPLIED\<close>: target, amount, source, remaining hp.
\<close>

datatype CombatEvent =
    TURN_START string
  | ATTACK_RESOLVED string string bool int int int bool bool int
  | DAMAGE_APPLIED string int string jsnumber
  | ENEMY_DEFEATED string
  | STATUS_APPLIED string string string
  | ATTEMPT_ACTION string "string option" string
  | STATUS_REMOVED string string
  | COMBAT_ENDED CombatResult
  | MOVE_RESOLVED string "string option" Params
  | ITEM_USED string Params
  | SPELL_CAST string Params

record CombatState =
  battle_id :: string
  phase :: CombatPhase
  round_no :: int
  turn_index :: int
  initiative_order :: "string list"
  entities :: "CombatEntity list"
  event_log :: "CombatEvent list"

datatype Action = Attack | Defend | Move | Item | Spell | Attempt

datatype Risk = Low | Medium | High

record ActionIntent =
  action :: Action
  actor :: string
  target :: "string option"
  params :: "Params option"
  free_text :: "string option"
  risk :: "Risk option"

record AttackRoll =
  d20 :: "int option"
  bonus :: "int option"
  total :: "int option"

record RollOverrides =
  ro_attackRoll :: "AttackRoll option"

text \<open>
  A field of the player snapshot is \<open>Some\<close> exactly when \<open>typeof\<close> of it is \<open>'number'\<close>,
  which holds of \<open>NaN\<close> too.
\<close>

record PlayerSnapshot =
  snap_hp :: "jsnumber option"
  snap_mp :: "jsnumber option"

type_synonym Battles = "string \<rightharpoonup> CombatState"

text \<open>
  \<open>Math.random()\<close> is a source of numbers in \<open>[0, 1)\<close>; the model takes the sequence of
  its future values as an argument, and every call consumes the first one.
\<close>

type_synonym RandomSource = "nat \<Rightarrow> rat"

definition rollDie :: "int \<Rightarrow> RandomSource \<Rightarrow> int \<times> RandomSource" where
  "rollDie faces rnd = (\<lfloor>rnd 0 * of_int faces\<rfloor> + 1, \<lambda>n. rnd (Suc n))"

definition clamp :: "jsnumber \<Rightarrow> jsnumber \<Rightarrow> jsnumber \<Rightarrow> jsnumber" where
  "clamp v lo hi = Math_max lo (Math_min hi v)"

definition appendLog :: "CombatState \<Rightarrow> CombatEvent list \<Rightarrow> CombatState" where
  "appendLog state events =
     (let l = event_log state @ events
      in state\<lparr>event_log := drop (length l - 20) l\<rparr>)"

definition startBattle ::
  "Battles \<Rightarrow> string \<Rightarrow> CombatEntity \<Rightarrow> CombatEntity list \<Rightarrow> Battles \<times> CombatState" where
  "startBattle battles campaignId player enemies =
     (let state0 = \<lparr> battle_id = campaignId @ ''-battle'',
                     phase = Player_turn,
                     round_no = 1,
                     turn_index = 0,
                     initiative_order = ent_id player # map ent_id enemies,
                     entities = player # enemies,
                     event_log = [] \<rparr>;
          state = appendLog state0 [TURN_START (ent_id player)]
      in (battles(campaignId \<mapsto> state), state))"


text \<open>The update of the object that \<open>find\<close> returned: the first element satisfying \<open>P\<close>.\<close>

fun mutate_found :: "('a \<Rightarrow> bool) \<Rightarrow> ('a \<Rightarrow> 'a) \<Rightarrow> 'a list \<Rightarrow> 'a list" where
  "mutate_found P f [] = []"
| "mutate_found P f (x # xs) = (if P x then f x # xs else x # mutate_found P f xs)"

text \<open>
  The local constants of \<open>resolveAttack\<close>, one definition for each: \<open>d20\<close> (the supplied
  value, else a rolled die), \<open>bonus\<close>, \<open>total\<close>, \<open>hit\<close> (from \<open>critical\<close>, \<open>fumble\<close> and
  \<open>ac = 10\<close>), \<open>baseDamage\<close> and the final \<open>damage\<close>.
\<close>

definition attack_d20 :: "AttackRoll option \<Rightarrow> RandomSource \<Rightarrow> int \<times> RandomSource" where
  "attack_d20 attackRoll rnd =
     (case Option.bind attackRoll d20 of
        Some d \<Rightarrow> (d, rnd)
      | None \<Rightarrow> rollDie 20 rnd)"

definition attack_bonus :: "AttackRoll option \<Rightarrow> int \<Rightarrow> int" where
  "attack_bonus attackRoll d20v =
     (case Option.bind attackRoll bonus of
        Some b \<Rightarrow> b
      | None \<Rightarrow>
          (case Option.bind attackRoll total of
             Some t \<Rightarrow> t - d20v
           | None \<Rightarrow> 0))"

definition attack_total :: "AttackRoll option \<Rightarrow> int \<Rightarrow> int \<Rightarrow> int" where
  "attack_total attackRoll d20v bonusv =
     (case Option.bind attackRoll total of
        Some t \<Rightarrow> t
      | None \<Rightarrow> d20v + bonusv)"

definition attack_hit :: "int \<Rightarrow> int \<Rightarrow> bool" where
  "attack_hit d20v totalv =
     (let critical = (d20v = 20);
          fumble = (d20v = 1);
          ac = 10
      in if critical then True else if fumble then False else totalv \<ge> ac)"

definition attack_baseDamage :: "CombatEntity \<Rightarrow> RandomSource \<Rightarrow> int \<times> RandomSource" where
  "attack_baseDamage attacker rnd =
     (if ent_type attacker = Player
      then (fst (rollDie 8 rnd) + 2, snd (rollDie 8 rnd))
      else (fst (rollDie 6 rnd) + 1, snd (rollDie 6 rnd)))"

definition attack_damage :: "CombatEntity \<Rightarrow> bool \<Rightarrow> int \<Rightarrow> int" where
  "attack_damage tgt critical baseDamage =
     (let damage = (if critical then baseDamage * 2 else baseDamage)
      in if ent_type tgt = Player
         then (case find (\<lambda>status. key status = ''defending'') (statuses tgt) of
                 Some defending \<Rightarrow> max 1 (damage div 2)
               | None \<Rightarrow> damage)
         else damage)"

text \<open>
  The body of \<open>if (hit) { ... }\<close>: the target's hit points are set, \<open>DAMAGE_APPLIED\<close> is
  pushed, and \<open>ENEMY_DEFEATED\<close> is pushed when the target's hit points are 0.
\<close>

definition applyDamage ::
  "CombatState \<Rightarrow> string \<Rightarrow> CombatEntity \<Rightarrow> CombatEntity \<Rightarrow> int \<Rightarrow> CombatEvent list
     \<Rightarrow> CombatState \<times> CombatEvent list" where
  "applyDamage state targetId attacker tgt damage events =
     (let new_hp = clamp (js_minus (hp tgt) (Num damage)) (Num 0) (hp_max tgt);
          state' = state\<lparr>entities :=
                     mutate_found (\<lambda>entity. ent_id entity = targetId)
                       (\<lambda>entity. entity\<lparr>hp := new_hp\<rparr>) (entities state)\<rparr>;
          events' = events @ [DAMAGE_APPLIED (ent_id tgt) damage (ent_id attacker) new_hp]
      in (state', if new_hp = Num 0 then events' @ [ENEMY_DEFEATED (ent_id tgt)] else events'))"

text \<open>
  \<open>resolveAttack\<close> once attacker and target are found. It pushes onto the caller's
  \<open>events\<close> array and mutates the target inside \<open>state\<close>; the model returns the state, the
  extended event list and the rest of the random source.
\<close>

definition strike ::
  "CombatState \<Rightarrow> string \<Rightarrow> CombatEntity \<Rightarrow> CombatEntity \<Rightarrow> CombatEvent list
     \<Rightarrow> AttackRoll option \<Rightarrow> RandomSource
     \<Rightarrow> CombatState \<times> CombatEvent list \<times> RandomSource" where
  "strike state targetId attacker tgt events attackRoll rnd =
     (let d20v = fst (attack_d20 attackRoll rnd);
          rnd1 = snd (attack_d20 attackRoll rnd);
          bonusv = attack_bonus attackRoll d20v;
          totalv = attack_total attackRoll d20v bonusv;
          hit = attack_hit d20v totalv;
          events1 = events @
            [ATTACK_RESOLVED (ent_id attacker) (ent_id tgt) hit d20v bonusv totalv
               (d20v = 20) (d20v = 1) 10]
      in if hit then
           let baseDamage = fst (attack_baseDamage attacker rnd1);
               rnd2 = snd (attack_baseDamage attacker rnd1);
               damage = attack_damage tgt (d20v = 20) baseDamage;
               (state', events2) = applyDamage state targetId attacker tgt damage events1
           in (state', events2, rnd2)
         else (state, events1, rnd1))"

definition resolveAttack ::
  "CombatState \<Rightarrow> ActionIntent \<Rightarrow> CombatEvent list \<Rightarrow> AttackRoll option \<Rightarrow> RandomSource
     \<Rightarrow> CombatState \<times> CombatEvent list \<times> RandomSource" where
  "resolveAttack state intent events attackRoll rnd =
     (case target intent of
        None \<Rightarrow> (state, events, rnd)
      | Some targetId \<Rightarrow>
          if targetId = [] then (state, events, rnd)
          else
            (case find (\<lambda>entity. ent_id entity = actor intent) (entities state) of
               None \<Rightarrow> (state, events, rnd)
             | Some attacker \<Rightarrow>
                 (case find (\<lambda>entity. ent_id entity = targetId) (entities state) of
                    None \<Rightarrow> (state, events, rnd)
                  | Some tgt \<Rightarrow> strike state targetId attacker tgt events attackRoll rnd)))"

definition resolveDefend ::
  "CombatState \<Rightarrow> ActionIntent \<Rightarrow> CombatEvent list \<Rightarrow> CombatState \<times> CombatEvent list" where
  "resolveDefend state intent events =
     (case find (\<lambda>entity. ent_id entity = actor intent) (entities state) of
        None \<Rightarrow> (state, events)
      | Some act \<Rightarrow>
          let state' =
                (case find (\<lambda>status. key status = ''defending'') (statuses act) of
                   None \<Rightarrow>
                     state\<lparr>entities :=
                       mutate_found (\<lambda>entity. ent_id entity = actor intent)
                         (\<lambda>entity. entity\<lparr>statuses :=
                            statuses entity @ [\<lparr>key = ''defending'', duration = 1\<rparr>]\<rparr>)
                         (entities state)\<rparr>
                 | Some existing \<Rightarrow> state)
          in (state', events @ [STATUS_APPLIED (ent_id act) ''defending'' ''turn'']))"

definition resolveAttempt ::
  "CombatState \<Rightarrow> ActionIntent \<Rightarrow> CombatEvent list \<Rightarrow> CombatState \<times> CombatEvent list" where
  "resolveAttempt state intent events =
     (state,
      events @
        [ATTEMPT_ACTION (actor intent)
           (case target intent of
              None \<Rightarrow> None
            | Some t \<Rightarrow> if t = [] then None else Some t)
           (case free_text intent of None \<Rightarrow> [] | Some t \<Rightarrow> t)])"

definition clearExpiredStatuses ::
  "CombatEntity \<Rightarrow> CombatEvent list \<Rightarrow> CombatEntity \<times> CombatEvent list" where
  "clearExpiredStatuses entity events =
     (let remaining =
            filter (\<lambda>status. duration status > 0)
              (map (\<lambda>status. status\<lparr>duration := duration status - 1\<rparr>) (statuses entity));
          events' = events @
            map (\<lambda>status. STATUS_REMOVED (ent_id entity) (key status))
              (filter (\<lambda>status. find (\<lambda>next. key next = key status) remaining = None)
                 (statuses entity))
      in (entity\<lparr>statuses := remaining\<rparr>, events'))"

text \<open>
  The body of the \<open>forEach\<close> of \<open>resolveEnemyTurn\<close>, for one enemy: \<open>TURN_START\<close> is pushed
  and the enemy attacks the player through \<open>resolveAttack\<close>, with no supplied roll.
\<close>

definition enemyAttack ::
  "string \<Rightarrow> CombatState \<times> CombatEvent list \<times> RandomSource \<Rightarrow> CombatEntity
     \<Rightarrow> CombatState \<times> CombatEvent list \<times> RandomSource" where
  "enemyAttack playerId acc enemy =
     resolveAttack (fst acc)
       \<lparr>action = Attack, actor = ent_id enemy, target = Some playerId,
        params = None, free_text = None, risk = None\<rparr>
       (fst (snd acc) @ [TURN_START (ent_id enemy)]) None (snd (snd acc))"

definition resolveEnemyTurn ::
  "CombatState \<Rightarrow> CombatEvent list \<Rightarrow> RandomSource
     \<Rightarrow> CombatState \<times> CombatEvent list \<times> RandomSource" where
  "resolveEnemyTurn state events rnd =
     (case find (\<lambda>entity. ent_type entity = Player) (entities state) of
        None \<Rightarrow> (state, events, rnd)
      | Some player \<Rightarrow>
          let enemies = filter (\<lambda>entity. ent_type entity = Enemy \<and> js_gt (hp entity) (Num 0))
                          (entities state);
              r = foldl (enemyAttack (ent_id player)) (state, events, rnd) enemies
          in (fst r, fst (snd r) @ [TURN_START (ent_id player)], snd (snd r)))"

definition checkCombatEnd ::
  "CombatState \<Rightarrow> CombatEvent list \<Rightarrow> CombatState \<times> CombatEvent list \<times> bool" where
  "checkCombatEnd state events =
     (let player = find (\<lambda>entity. ent_type entity = Player) (entities state);
          enemiesAlive = list_ex (\<lambda>entity. ent_type entity = Enemy \<and> js_gt (hp entity) (Num 0))
                           (entities state)
      in if (case player of None \<Rightarrow> True | Some p \<Rightarrow> js_le (hp p) (Num 0))
         then (state\<lparr>phase := Ended\<rparr>, events @ [COMBAT_ENDED Defeat], True)
         else if \<not> enemiesAlive
         then (state\<lparr>phase := Ended\<rparr>, events @ [COMBAT_ENDED Victory], True)
         else (state, events, False))"

datatype error = BattleNotFound

text \<open>The two assignments of the player snapshot, on the entity \<open>find\<close> returned.\<close>

definition applySnapshot :: "PlayerSnapshot \<Rightarrow> CombatEntity \<Rightarrow> CombatEntity" where
  "applySnapshot playerSnapshot player =
     (let p1 = (case snap_hp playerSnapshot of
                  Some h \<Rightarrow> player\<lparr>hp := clamp h (Num 0) (hp_max player)\<rparr>
                | None \<Rightarrow> player)
      in (case (snap_mp playerSnapshot, mp p1, mp_max p1) of
            (Some m, Some cur, Some mx) \<Rightarrow> p1\<lparr>mp := Some (clamp m (Num 0) mx)\<rparr>
          | _ \<Rightarrow> p1))"

text \<open>
  The block \<open>if (playerSnapshot && player) { ... }\<close> of \<open>resolveAction\<close>, where \<open>player\<close> is
  the first entity of type player.
\<close>

definition applyPlayerSnapshot :: "PlayerSnapshot option \<Rightarrow> CombatState \<Rightarrow> CombatState" where
  "applyPlayerSnapshot playerSnapshot state =
     (case playerSnapshot of
        None \<Rightarrow> state
      | Some snap \<Rightarrow>
          state\<lparr>entities :=
            mutate_found (\<lambda>entity. ent_type entity = Player) (applySnapshot snap)
              (entities state)\<rparr>)"

text \<open>
  The \<open>forEach\<close> over \<open>state.entities\<close> that runs \<open>clearExpiredStatuses\<close> on every entity,
  in roster order, pushing onto the one \<open>events\<close> array.
\<close>

definition clearAllStatuses ::
  "CombatState \<Rightarrow> CombatEvent list \<Rightarrow> CombatState \<times> CombatEvent list" where
  "clearAllStatuses state events =
     (let r = foldl (\<lambda>acc entity.
                 (fst acc @ [fst (clearExpiredStatuses entity (snd acc))],
                  snd (clearExpiredStatuses entity (snd acc))))
              ([], events) (entities state)
      in (state\<lparr>entities := fst r\<rparr>, snd r))"

text \<open>The \<open>switch (intent.action)\<close> of \<open>resolveAction\<close>; \<open>attempt\<close> is also its default.\<close>

definition dispatchAction ::
  "CombatState \<Rightarrow> ActionIntent \<Rightarrow> CombatEvent list \<Rightarrow> RollOverrides option \<Rightarrow> RandomSource
     \<Rightarrow> CombatState \<times> CombatEvent list \<times> RandomSource" where
  "dispatchAction state intent events rollOverrides rnd =
     (case action intent of
        Attack \<Rightarrow>
          resolveAttack state intent events (Option.bind rollOverrides ro_attackRoll) rnd
      | Defend \<Rightarrow>
          (fst (resolveDefend state intent events), snd (resolveDefend state intent events), rnd)
      | Move \<Rightarrow>
          (state,
           events @
             [MOVE_RESOLVED (actor intent)
                (case target intent of
                   None \<Rightarrow> None
                 | Some t \<Rightarrow> if t = [] then None else Some t)
                (case params intent of None \<Rightarrow> [] | Some p \<Rightarrow> p)],
           rnd)
      | Item \<Rightarrow>
          (state,
           events @
             [ITEM_USED (actor intent) (case params intent of None \<Rightarrow> [] | Some p \<Rightarrow> p)],
           rnd)
      | Spell \<Rightarrow>
          (state,
           events @
             [SPELL_CAST (actor intent) (case params intent of None \<Rightarrow> [] | Some p \<Rightarrow> p)],
           rnd)
      | Attempt \<Rightarrow>
          (fst (resolveAttempt state intent events), snd (resolveAttempt state intent events), rnd))"

text \<open>
  The body of \<open>if (!checkCombatEnd(state, events)) { ... }\<close> in \<open>resolveAction\<close>: the enemy
  turn, the round counter, the status decay and the second end check.
\<close>

definition continueCombat ::
  "CombatState \<Rightarrow> CombatEvent list \<Rightarrow> RandomSource
     \<Rightarrow> CombatState \<times> CombatEvent list \<times> RandomSource" where
  "continueCombat state events rnd =
     (let sa = state\<lparr>phase := Enemy_turn\<rparr>;
          turn = resolveEnemyTurn sa events rnd;
          sb = fst turn;
          sc = sb\<lparr>round_no := round_no sb + 1\<rparr>;
          sd = sc\<lparr>phase := Player_turn\<rparr>;
          cleared = clearAllStatuses sd (fst (snd turn));
          final = checkCombatEnd (fst cleared) (snd cleared)
      in (fst final, fst (snd final), snd (snd turn)))"

text \<open>
  \<open>resolveAction\<close> throws \<open>Battle not found\<close> for an unknown campaign; otherwise it returns
  \<open>{state, events}\<close>, having stored the state in \<open>battles\<close>.
\<close>

definition resolveAction ::
  "Battles \<Rightarrow> string \<Rightarrow> ActionIntent \<Rightarrow> PlayerSnapshot option \<Rightarrow> RollOverrides option
     \<Rightarrow> RandomSource
     \<Rightarrow> error + (Battles \<times> CombatState \<times> CombatEvent list \<times> RandomSource)" where
  "resolveAction battles campaignId intent playerSnapshot rollOverrides rnd =
     (case battles campaignId of
        None \<Rightarrow> Inl BattleNotFound
      | Some st \<Rightarrow>
          let state0 = applyPlayerSnapshot playerSnapshot st;
              acted = dispatchAction state0 intent [TURN_START (actor intent)] rollOverrides rnd;
              checked = checkCombatEnd (fst acted) (fst (snd acted));
              result =
                (if \<not> snd (snd checked)
                 then continueCombat (fst checked) (fst (snd checked)) (snd (snd acted))
                 else (fst checked, fst (snd checked), snd (snd acted)));
              state4 = appendLog (fst result) (fst (snd result))
          in Inr (battles(campaignId \<mapsto> state4), state4, fst (snd result), snd (snd result)))"

subsection \<open>The hit-point invariant and a sample battle\<close>

text \<open>The invariant \<open>0 \<le> hp \<le> hp_max\<close> of one entity.\<close>

definition hp_ok :: "CombatEntity \<Rightarrow> bool" where
  "hp_ok e = (js_le (Num 0) (hp e) \<and> js_le (hp e) (hp_max e))"

text \<open>
  The battle that the \<open>/dm-response\<close> route starts for an attack when the campaign has none:
  a player with 20 hit points and one enemy, \<open>enemy-0\<close>, with 12.
\<close>

definition demo_player :: CombatEntity where
  "demo_player = \<lparr>ent_id = ''player'', ent_type = Player, ent_name = ''Player'', hp = Num 20, hp_max = Num 20,
                   mp = Some (Num 0), mp_max = Some (Num 0), statuses = []\<rparr>"

definition demo_enemy :: CombatEntity where
  "demo_enemy = \<lparr>ent_id = ''enemy-0'', ent_type = Enemy, ent_name = ''Enemy'', hp = Num 12, hp_max = Num 12,
                  mp = None, mp_max = None, statuses = []\<rparr>"

definition demo_state :: CombatState where
  "demo_state = snd (startBattle Map.empty ''c1'' demo_player [demo_enemy])"

definition demo_attack :: ActionIntent where
  "demo_attack = \<lparr>action = Attack, actor = ''player'', target = Some ''enemy-0'',
                   params = None, free_text = None, risk = None\<rparr>"

text \<open>
  The same battle with the player defending, an attack of the enemy on the player, and a
  random source whose first value rolls a 15 on the d20 and whose later values roll a 4
  on the d6.
\<close>

definition demo_defender :: CombatEntity where
  "demo_defender = demo_player\<lparr>statuses := [\<lparr>key = ''defending'', duration = 1\<rparr>]\<rparr>"

definition demo_defending_state :: CombatState where
  "demo_defending_state = demo_state\<lparr>entities := [demo_defender, demo_enemy]\<rparr>"

definition demo_enemy_attack :: ActionIntent where
  "demo_enemy_attack = \<lparr>action = Attack, actor = ''enemy-0'', target = Some ''player'',
                         params = None, free_text = None, risk = None\<rparr>"

definition demo_rolls :: RandomSource where
  "demo_rolls = (\<lambda>n. if n = 0 then 7 / 10 else 1 / 2)"


subsection \<open>The turn cycle in the words of the specification\<close>

text \<open>
  The enemies that act in an enemy turn: the entities of type enemy with hit points above
  0, in roster order.
\<close>

definition living_enemies :: "CombatState \<Rightarrow> CombatEntity list" where
  "living_enemies state =
     filter (\<lambda>entity. ent_type entity = Enemy \<and> js_gt (hp entity) (Num 0)) (entities state)"

text \<open>
  Status decay as the specification words it: every duration is decremented by 1 and a
  status whose duration reaches 0 or less is removed.
\<close>

definition decayed :: "CombatEntity \<Rightarrow> CombatEntity" where
  "decayed e = e\<lparr>statuses := map (\<lambda>s. s\<lparr>duration := duration s - 1\<rparr>)
                                (filter (\<lambda>s. 1 < duration s) (statuses e))\<rparr>"

text \<open>
  The \<open>STATUS_REMOVED\<close> events of one entity as the specification words them: one for
  every status whose duration reaches 0 or less, in order.
\<close>

definition expired_events :: "CombatEntity \<Rightarrow> CombatEvent list" where
  "expired_events e =
     map (\<lambda>s. STATUS_REMOVED (ent_id e) (key s)) (filter (\<lambda>s. duration s - 1 \<le> 0) (statuses e))"

text \<open>
  The \<open>STATUS_REMOVED\<close> events of one entity by status key: one for every status, in
  order, none of whose namesakes (statuses of the same key, itself included) survives the
  decay. An entity that carries two statuses of one key, one expiring and one not, has an
  expired status without an event.
\<close>

definition removal_events :: "CombatEntity \<Rightarrow> CombatEvent list" where
  "removal_events e =
     map (\<lambda>s. STATUS_REMOVED (ent_id e) (key s))
       (filter (\<lambda>s. \<forall>n \<in> set (statuses e). key n = key s \<longrightarrow> duration n \<le> 1) (statuses e))"

text \<open>
  The event of the end check: defeat when there is no player or the player has no hit
  points left, else victory when no enemy has hit points left, else nothing.
\<close>

definition end_events :: "CombatState \<Rightarrow> CombatEvent list" where
  "end_events state =
     (if (\<forall>p. find (\<lambda>entity. ent_type entity = Player) (entities state) = Some p
            \<longrightarrow> js_le (hp p) (Num 0))
      then [COMBAT_ENDED Defeat]
      else if \<not> (\<exists>e \<in> set (entities state). ent_type e = Enemy \<and> js_gt (hp e) (Num 0))
      then [COMBAT_ENDED Victory]
      else [])"

text \<open>
  The player's action as section 4.5 of the specification words it, with the events it
  logs after \<open>TURN_START\<close>: an attack goes through \<open>resolveAttack\<close>; defend adds a
  \<open>defending\<close> status of duration 1 to the actor, if the actor exists and has none, and logs
  \<open>STATUS_APPLIED\<close>; move, item and spell log one pass-through event with the supplied
  parameters; attempt logs \<open>ATTEMPT_ACTION\<close> with the free text.
\<close>

definition player_action ::
  "CombatState \<Rightarrow> ActionIntent \<Rightarrow> RollOverrides option \<Rightarrow> RandomSource
     \<Rightarrow> CombatState \<times> CombatEvent list \<times> RandomSource" where
  "player_action state intent rollOverrides rnd =
     (case action intent of
        Attack \<Rightarrow> resolveAttack state intent [] (Option.bind rollOverrides ro_attackRoll) rnd
      | Defend \<Rightarrow>
          (if actor intent \<in> ent_id ` set (entities state)
           then (state\<lparr>entities :=
                   mutate_found (\<lambda>entity. ent_id entity = actor intent)
                     (\<lambda>entity. if ''defending'' \<in> key ` set (statuses entity) then entity
                        else entity\<lparr>statuses :=
                               statuses entity @ [\<lparr>key = ''defending'', duration = 1\<rparr>]\<rparr>)
                     (entities state)\<rparr>,
                 [STATUS_APPLIED (actor intent) ''defending'' ''turn''], rnd)
           else (state, [], rnd))
      | Move \<Rightarrow>
          (state,
           [MOVE_RESOLVED (actor intent) (if target intent = Some [] then None else target intent)
              (case params intent of None \<Rightarrow> [] | Some p \<Rightarrow> p)],
           rnd)
      | Item \<Rightarrow>
          (state, [ITEM_USED (actor intent) (case params intent of None \<Rightarrow> [] | Some p \<Rightarrow> p)], rnd)
      | Spell \<Rightarrow>
          (state, [SPELL_CAST (actor intent) (case params intent of None \<Rightarrow> [] | Some p \<Rightarrow> p)], rnd)
      | Attempt \<Rightarrow>
          (state,
           [ATTEMPT_ACTION (actor intent) (if target intent = Some [] then None else target intent)
              (case free_text intent of None \<Rightarrow> [] | Some t \<Rightarrow> t)],
           rnd))"

text \<open>
  The enemy turn as the specification words it: every enemy of the list, in order, starts
  its turn and attacks the player (the target of the attack is the player's id) through
  \<open>resolveAttack\<close>, on the state the attacks before it left.
\<close>

fun enemy_turn ::
  "string \<Rightarrow> CombatEntity list \<Rightarrow> CombatState \<Rightarrow> RandomSource
     \<Rightarrow> CombatState \<times> CombatEvent list \<times> RandomSource" where
  "enemy_turn playerId [] state rnd = (state, [], rnd)"
| "enemy_turn playerId (enemy # enemies) state rnd =
     (let attack = resolveAttack state
                     \<lparr>action = Attack, actor = ent_id enemy, target = Some playerId,
                      params = None, free_text = None, risk = None\<rparr> [] None rnd;
          others = enemy_turn playerId enemies (fst attack) (snd (snd attack))
      in (fst others, TURN_START (ent_id enemy) # fst (snd attack) @ fst (snd others),
          snd (snd others)))"

text \<open>
  What an event list shows of the turns: who started a turn and who attacked whom, in
  order.
\<close>

datatype Step = Turn string | Attacks string string

fun steps :: "CombatEvent list \<Rightarrow> Step list" where
  "steps [] = []"
| "steps (TURN_START a # es) = Turn a # steps es"
| "steps (ATTACK_RESOLVED a t h d b tot c f ac # es) = Attacks a t # steps es"
| "steps (e # es) = steps es"

text \<open>Further sample inputs: a defend action, a wounded player, a battle already won,
  an attack without a target, an attempt, a player snapshot whose \<open>hp\<close> is \<open>NaN\<close>, a player
  with two \<open>defending\<close> statuses, and a player whose id is the empty string.\<close>

definition demo_defend :: ActionIntent where
  "demo_defend = \<lparr>action = Defend, actor = ''player'', target = None,
                   params = None, free_text = None, risk = None\<rparr>"

definition demo_wounded_state :: CombatState where
  "demo_wounded_state = demo_state\<lparr>entities := [demo_player\<lparr>hp := Num 3\<rparr>, demo_enemy]\<rparr>"




definition demo_attempt :: ActionIntent where
  "demo_attempt = \<lparr>action = Attempt, actor = ''player'', target = None,
                    params = None, free_text = None, risk = None\<rparr>"

definition demo_NaN_snapshot :: PlayerSnapshot where
  "demo_NaN_snapshot = \<lparr>snap_hp = Some NaN, snap_mp = None\<rparr>"

definition demo_twice_defending :: CombatEntity where
  "demo_twice_defending =
     demo_player\<lparr>statuses := [\<lparr>key = ''defending'', duration = 1\<rparr>,
                               \<lparr>key = ''defending'', duration = 3\<rparr>]\<rparr>"

definition demo_twice_defending_state :: CombatState where
  "demo_twice_defending_state =
     snd (startBattle Map.empty ''c1'' demo_twice_defending [demo_enemy])"

definition demo_nameless_state :: CombatState where
  "demo_nameless_state =
     snd (startBattle Map.empty ''c1'' (demo_player\<lparr>ent_id := ''''\<rparr>) [demo_enemy])"
section \<open>Regular expressions and strings of the text services\<close>

text \<open>
  A JavaScript string is a sequence of UTF-16 code units. The texts of the model are
  \<open>string\<close>s, whose characters are the code units below 256; the regular expressions work
  on the code units as numbers, so that the classes of the source (\<open>\s\<close>, \<open>\b\<close>, the straight
  and the curly quotes 34, 8220 and 8221) are written as the source has them.

  \<open>rx\<close> is the fragment of the regular expressions that the source uses: a code unit, a
  class and a negated class, \<open>.\<close>, \<open>\s\<close>, \<open>\d\<close>, \<open>\b\<close>, \<open>^\<close>, \<open>$\<close>, sequence, alternative, and
  the greedy \<open>?\<close>, \<open>*\<close> and \<open>+\<close>.
\<close>

datatype rx =
    Lit int
  | AnyOf "int list"
  | NoneOf "int list"
  | Dot
  | Space
  | Digit
  | WordB
  | Bol
  | Eol
  | Eps
  | Seq rx rx
  | Alt rx rx
  | Opt rx
  | Star rx
  | Plus rx

text \<open>A position in the input: the code unit before it, if any, and the rest of the input.\<close>

type_synonym pos = "int option \<times> int list"

definition is_word_char :: "int \<Rightarrow> bool" where
  "is_word_char c =
     ((65 \<le> c \<and> c \<le> 90) \<or> (97 \<le> c \<and> c \<le> 122) \<or> (48 \<le> c \<and> c \<le> 57) \<or> c = 95)"

definition is_space :: "int \<Rightarrow> bool" where
  "is_space c =
     (c \<in> set [9, 10, 11, 12, 13, 32, 160, 5760, 8232, 8233, 8239, 8287, 12288, 65279]
      \<or> (8192 \<le> c \<and> c \<le> 8202))"

definition is_digit :: "int \<Rightarrow> bool" where
  "is_digit c = (48 \<le> c \<and> c \<le> 57)"

definition is_line_terminator :: "int \<Rightarrow> bool" where
  "is_line_terminator c = (c \<in> set [10, 13, 8232, 8233])"

text \<open>
  Canonicalization under the flag \<open>i\<close>: a lower-case letter of the patterns' alphabet is
  compared as its upper-case letter. The patterns of the source hold ASCII letters only,
  and a code unit from 128 on is never mapped to one below 128.
\<close>

definition canonicalize :: "bool \<Rightarrow> int \<Rightarrow> int" where
  "canonicalize ignoreCase c = (if ignoreCase \<and> 97 \<le> c \<and> c \<le> 122 then c - 32 else c)"

fun step_char :: "(int \<Rightarrow> bool) \<Rightarrow> pos \<Rightarrow> pos list" where
  "step_char P (p, []) = []"
| "step_char P (p, c # cs) = (if P c then [(Some c, cs)] else [])"

definition at_word_boundary :: "pos \<Rightarrow> bool" where
  "at_word_boundary q =
     ((case fst q of None \<Rightarrow> False | Some c \<Rightarrow> is_word_char c)
      \<noteq> (case snd q of [] \<Rightarrow> False | c # cs \<Rightarrow> is_word_char c))"

text \<open>
  The greedy repetition of a matcher \<open>f\<close>: the ends after one more round come first, the
  end after no round last; a round that consumes nothing is not repeated. The number of
  rounds is bounded by the length of the rest of the input.
\<close>

fun iter :: "(pos \<Rightarrow> pos list) \<Rightarrow> nat \<Rightarrow> pos \<Rightarrow> pos list" where
  "iter f 0 q = [q]"
| "iter f (Suc n) q =
     concat (map (iter f n) (filter (\<lambda>q'. length (snd q') < length (snd q)) (f q))) @ [q]"

text \<open>
  \<open>ends ignoreCase r q\<close>: the positions at which a match of \<open>r\<close> that starts at \<open>q\<close> can end,
  in the order in which a backtracking matcher tries them.
\<close>

primrec ends :: "bool \<Rightarrow> rx \<Rightarrow> pos \<Rightarrow> pos list" where
  "ends ic (Lit c) = step_char (\<lambda>x. canonicalize ic x = canonicalize ic c)"
| "ends ic (AnyOf cs) = step_char (\<lambda>x. canonicalize ic x \<in> set (map (canonicalize ic) cs))"
| "ends ic (NoneOf cs) = step_char (\<lambda>x. canonicalize ic x \<notin> set (map (canonicalize ic) cs))"
| "ends ic Dot = step_char (\<lambda>x. \<not> is_line_terminator x)"
| "ends ic Space = step_char is_space"
| "ends ic Digit = step_char is_digit"
| "ends ic WordB = (\<lambda>q. if at_word_boundary q then [q] else [])"
| "ends ic Bol = (\<lambda>q. if fst q = None then [q] else [])"
| "ends ic Eol = (\<lambda>q. if snd q = [] then [q] else [])"
| "ends ic Eps = (\<lambda>q. [q])"
| "ends ic (Seq a b) = (\<lambda>q. concat (map (ends ic b) (ends ic a q)))"
| "ends ic (Alt a b) = (\<lambda>q. ends ic a q @ ends ic b q)"
| "ends ic (Opt a) = (\<lambda>q. ends ic a q @ [q])"
| "ends ic (Star a) = (\<lambda>q. iter (ends ic a) (length (snd q)) q)"
| "ends ic (Plus a) =
     (\<lambda>q. concat (map (\<lambda>q'. iter (ends ic a) (length (snd q')) q') (ends ic a q)))"

fun positions :: "int option \<Rightarrow> int list \<Rightarrow> pos list" where
  "positions p [] = [(p, [])]"
| "positions p (c # cs) = (p, c # cs) # positions (Some c) cs"

definition code_units :: "string \<Rightarrow> int list" where
  "code_units s = map of_char s"

text \<open>\<open>RegExp.prototype.test\<close> of a pattern without the flag \<open>g\<close>: a match starts somewhere.\<close>

definition rx_test :: "bool \<Rightarrow> rx \<Rightarrow> string \<Rightarrow> bool" where
  "rx_test ic r s = list_ex (\<lambda>q. ends ic r q \<noteq> []) (positions None (code_units s))"

text \<open>Abbreviations for writing the patterns: a literal text, \<open>a|b|c\<close>, \<open>abc\<close>, and \<open>\b(...)\b\<close>.\<close>

definition seqs :: "rx list \<Rightarrow> rx" where
  "seqs rs = foldr Seq rs Eps"

definition lit :: "string \<Rightarrow> rx" where
  "lit s = seqs (map Lit (code_units s))"

definition alts :: "rx list \<Rightarrow> rx" where
  "alts rs = foldr Alt (butlast rs) (last rs)"

definition words :: "string list \<Rightarrow> rx" where
  "words ws = alts (map lit ws)"

definition word_in :: "rx \<Rightarrow> rx" where
  "word_in r = seqs [WordB, r, WordB]"

text \<open>The optional apostrophe \<open>'?\<close> and the class of the three quotes.\<close>

definition apos :: rx where
  "apos = Opt (Lit 39)"

definition quotes :: "int list" where
  "quotes = [34, 8220, 8221]"

subsection \<open>String functions\<close>

definition space_char :: "char \<Rightarrow> bool" where
  "space_char c = is_space (of_char c)"

definition trim :: "string \<Rightarrow> string" where
  "trim s = rev (dropWhile space_char (rev (dropWhile space_char s)))"

text \<open>
  \<open>toLowerCase\<close> on the code units below 256: the letters A to Z, and the upper-case
  letters of Latin-1 (192 to 222 but 215), move up by 32.
\<close>

definition lower_char :: "char \<Rightarrow> char" where
  "lower_char c =
     (let n = (of_char c :: int)
      in if (65 \<le> n \<and> n \<le> 90) \<or> (192 \<le> n \<and> n \<le> 222 \<and> n \<noteq> 215)
         then char_of (n + 32) else c)"

definition toLowerCase :: "string \<Rightarrow> string" where
  "toLowerCase s = map lower_char s"

fun startsWith :: "string \<Rightarrow> string \<Rightarrow> bool" where
  "startsWith s [] = True"
| "startsWith [] (k # ks) = False"
| "startsWith (c # cs) (k # ks) = (c = k \<and> startsWith cs ks)"

fun includes_str :: "string \<Rightarrow> string \<Rightarrow> bool" where
  "includes_str [] k = (k = [])"
| "includes_str (c # cs) k = (startsWith (c # cs) k \<or> includes_str cs k)"

section \<open>Intent annotator (backend/src/services/intentUtility.ts)\<close>

datatype SegmentHint = SPEECH | REQUEST | ACTION_NOW | PAST_REF | PLAN | UNKNOWN

record Segment =
  seg_id :: string
  seg_text :: string
  hint :: "SegmentHint option"
  confidence :: "rat option"
  anchorMatch :: "bool option"
  noRollCandidate :: "bool option"
  markers :: "string list option"

record LastResolvedAction =
  lra_summary :: string
  lra_domain :: string
  lra_stat :: "string option"
  lra_skill :: "string option"
  lra_timestamp :: int
  lra_keywords :: "string list option"

definition PAST_REF_MARKERS :: "rx list" where
  "PAST_REF_MARKERS =
     [word_in (alts [lit ''i thought'', lit ''i tried'', lit ''turns out'',
                     seqs [lit ''i couldn'', apos, lit ''t''],
                     seqs [lit ''i did'', Opt (seqs [lit ''n'', apos, lit ''t''])],
                     lit ''i was going to'', lit ''earlier'', lit ''a moment ago'',
                     lit ''just now'']),
      word_in (words [''was'', ''were'']),
      word_in (alts [lit ''tried'',
                     seqs [lit ''couldn'', apos, lit ''t''],
                     seqs [lit ''didn'', apos, lit ''t''],
                     seqs [lit ''wasn'', apos, lit ''t''],
                     seqs [lit ''weren'', apos, lit ''t'']]),
      word_in (alts [lit ''my bad'', lit ''sorry'', lit ''oops'',
                     seqs [lit ''i didn'', apos, lit ''t mean''],
                     lit ''i just thought''])]"

definition REQUEST_MARKERS :: "rx list" where
  "REQUEST_MARKERS =
     [word_in (alts [lit ''can you'', lit ''could you'', lit ''give me'', lit ''i ask for'',
                     lit ''i order'', seqs [lit ''i'', apos, lit ''d like''], lit ''please'']),
      word_in (words [''barkeep'', ''bartender''])]"

definition SPEECH_MARKERS :: "rx list" where
  "SPEECH_MARKERS =
     [seqs [Bol, Star Space, lit ''i'', Plus Space, words [''say'', ''tell'', ''ask''], WordB]]"

definition TRIVIAL_ITEMS :: rx where
  "TRIVIAL_ITEMS = word_in (words [''ale'', ''water'', ''bread'', ''room'', ''information'', ''name''])"

definition AGGRESSION_WORDS :: rx where
  "AGGRESSION_WORDS =
     word_in (words [''threaten'', ''insult'', ''intimidate'', ''steal'', ''refuse'', ''demand''])"

definition ACTION_NOW_MARKERS :: "rx list" where
  "ACTION_NOW_MARKERS =
     [seqs [WordB, Opt (seqs [lit ''i'', Plus Space]),
            words [''attack'', ''strike'', ''swing'', ''shoot'', ''stab'', ''slash'', ''kick'',
                   ''punch'', ''grapple''],
            WordB],
      seqs [WordB, Opt (seqs [lit ''i'', Plus Space]), words [''try'', ''attempt''], Plus Space,
            lit ''to'', WordB],
      seqs [WordB, Opt (seqs [lit ''i'', Plus Space]),
            words [''jump'', ''climb'', ''flip'', ''vault'', ''sneak'', ''hide'', ''steal''],
            WordB]]"

text \<open>
  \<open>text.replace(/["..][^"..]*["..]/g, '')\<close>: every leftmost match is cut out. \<open>skip\<close> counts
  the code units of the current match that are still to be dropped; a quote that no
  later quote closes starts no match and stays.
\<close>

fun cut_quoted :: "nat \<Rightarrow> string \<Rightarrow> string" where
  "cut_quoted skip [] = []"
| "cut_quoted (Suc k) (c # cs) = cut_quoted k cs"
| "cut_quoted 0 (c # cs) =
     (case ends False (seqs [AnyOf quotes, Star (NoneOf quotes), AnyOf quotes])
             (None, code_units (c # cs)) of
        [] \<Rightarrow> c # cut_quoted 0 cs
      | q # qs \<Rightarrow> cut_quoted (length cs - length (snd q)) cs)"

definition stripQuotedSegments :: "string \<Rightarrow> string" where
  "stripQuotedSegments t = trim (cut_quoted 0 t)"

text \<open>\<open>split(/\s+/)\<close>: the pieces between the maximal runs of white space; \<open>in_run\<close> says
  that the code unit before was white space.\<close>

fun split_spaces :: "bool \<Rightarrow> string \<Rightarrow> string \<Rightarrow> string list" where
  "split_spaces in_run cur [] = [cur]"
| "split_spaces in_run cur (c # cs) =
     (if space_char c
      then (if in_run then split_spaces True cur cs else cur # split_spaces True [] cs)
      else split_spaces False (cur @ [c]) cs)"

definition extractKeywords :: "string \<Rightarrow> string list" where
  "extractKeywords t =
     filter (\<lambda>token. length token > 2)
       (split_spaces False []
          (map (\<lambda>c. if (97 \<le> (of_char c :: int) \<and> (of_char c :: int) \<le> 122)
                       \<or> is_digit (of_char c) \<or> space_char c
                    then c else CHR '' '')
             (toLowerCase t)))"

definition hasAnchorMatch :: "string \<Rightarrow> LastResolvedAction option \<Rightarrow> bool" where
  "hasAnchorMatch segmentText lastResolvedAction =
     (case lastResolvedAction of
        None \<Rightarrow> False
      | Some lra \<Rightarrow>
          let keywords =
                (case lra_keywords lra of
                   None \<Rightarrow> extractKeywords (lra_summary lra)
                 | Some ks \<Rightarrow> if ks = [] then extractKeywords (lra_summary lra) else ks);
              lowered = toLowerCase segmentText
          in list_ex (\<lambda>keyword. keyword \<noteq> [] \<and> includes_str lowered keyword) keywords)"

definition detectPastRef :: "string \<Rightarrow> bool" where
  "detectPastRef segmentText =
     list_ex (\<lambda>pattern. rx_test True pattern segmentText) PAST_REF_MARKERS"

definition detectRequest :: "string \<Rightarrow> bool" where
  "detectRequest segmentText =
     list_ex (\<lambda>pattern. rx_test True pattern segmentText) REQUEST_MARKERS"

definition detectSpeech :: "string \<Rightarrow> bool" where
  "detectSpeech segmentText =
     (if rx_test False (seqs [Bol, AnyOf quotes, Plus Dot, AnyOf quotes, Eol]) (trim segmentText)
      then True
      else list_ex (\<lambda>pattern. rx_test True pattern segmentText) SPEECH_MARKERS)"

definition detectActionNow :: "string \<Rightarrow> bool" where
  "detectActionNow segmentText =
     list_ex (\<lambda>pattern. rx_test True pattern segmentText) ACTION_NOW_MARKERS"

text \<open>
  The callback of \<open>segments.map\<close> in \<open>annotateSegments\<close>. The three variables \<open>hint\<close>,
  \<open>confidence\<close> and \<open>markers\<close> are assigned by five \<open>if\<close> statements in turn; \<open>mark\<close> is one
  such assignment.
\<close>

type_synonym Annotation = "SegmentHint \<times> rat \<times> string list"

definition mark :: "bool \<Rightarrow> SegmentHint \<Rightarrow> rat \<Rightarrow> string \<Rightarrow> Annotation \<Rightarrow> Annotation" where
  "mark cond h c m a = (if cond then (h, c, snd (snd a) @ [m]) else a)"

definition annotateSegment :: "LastResolvedAction option \<Rightarrow> Segment \<Rightarrow> Segment" where
  "annotateSegment lastResolvedAction segment =
     (let a0 = (UNKNOWN, 2 / 5, []);
          anchor = hasAnchorMatch (stripQuotedSegments (seg_text segment)) lastResolvedAction;
          pastRef = detectPastRef (seg_text segment);
          a1 = mark pastRef PAST_REF (17 / 20) ''PAST_REF'' a0;
          a2 = mark (anchor \<and> pastRef) PAST_REF (19 / 20) ''ANCHOR_PAST_REF'' a1;
          a3 = mark (fst a2 \<noteq> PAST_REF \<and> detectSpeech (seg_text segment)) SPEECH (4 / 5) ''SPEECH'' a2;
          a4 = mark (fst a3 \<noteq> PAST_REF \<and> detectRequest (seg_text segment)) REQUEST (4 / 5) ''REQUEST'' a3;
          a5 = mark (fst a4 = UNKNOWN \<and> detectActionNow (seg_text segment)) ACTION_NOW (7 / 10)
                 ''ACTION_NOW'' a4;
          isTrivial = (rx_test True TRIVIAL_ITEMS (seg_text segment)
                       \<and> \<not> rx_test True AGGRESSION_WORDS (seg_text segment));
          noRoll = (if fst a5 = PAST_REF \<or> fst a5 = SPEECH then True
                    else if fst a5 = REQUEST then isTrivial else False);
          ms = (if fst a5 \<noteq> PAST_REF \<and> fst a5 \<noteq> SPEECH \<and> fst a5 = REQUEST \<and> isTrivial
                then snd (snd a5) @ [''TRIVIAL_REQUEST''] else snd (snd a5))
      in segment\<lparr>hint := Some (fst a5),
                 confidence := Some (fst (snd a5)),
                 anchorMatch := Some anchor,
                 noRollCandidate := Some noRoll,
                 markers := Some ms\<rparr>)"

definition annotateSegments :: "Segment list \<Rightarrow> LastResolvedAction option \<Rightarrow> Segment list" where
  "annotateSegments segments lastResolvedAction = map (annotateSegment lastResolvedAction) segments"

subsection \<open>The priority of the hints\<close>

text \<open>
  The priority as the specification words it, \<open>PAST_REF > SPEECH > REQUEST > ACTION_NOW >
  UNKNOWN\<close>, and the priority of the source, in which a request marker overrides a speech
  marker.
\<close>

definition spec_hint :: "string \<Rightarrow> SegmentHint" where
  "spec_hint t =
     (if detectPastRef t then PAST_REF
      else if detectSpeech t then SPEECH
      else if detectRequest t then REQUEST
      else if detectActionNow t then ACTION_NOW
      else UNKNOWN)"

definition code_hint :: "string \<Rightarrow> SegmentHint" where
  "code_hint t =
     (if detectPastRef t then PAST_REF
      else if detectRequest t then REQUEST
      else if detectSpeech t then SPEECH
      else if detectActionNow t then ACTION_NOW
      else UNKNOWN)"

section \<open>Status normalizer (backend/src/services/aiService.ts)\<close>

text \<open>
  The payload is the parsed JSON of the generative model. The model of it is typed as the
  contract of the prompt types it: every field may be missing (\<open>None\<close>), an entry of a list
  may be \<open>null\<close> (\<open>None\<close>), text fields are strings and number fields are rationals.
\<close>

datatype StatusType = Condition | Buff | Debuff

datatype RestrictionValue = RFlag bool | RText string

type_synonym StatusModifiers = "(string \<times> string) list"

type_synonym StatusRestrictions = "(string \<times> RestrictionValue) list"

record StatusDuration =
  dur_type :: string
  dur_value :: "rat option"

record StatusEffect =
  st_id :: string
  st_name :: string
  st_type :: StatusType
  st_mechanics :: string
  st_trigger :: string
  st_modifiers :: StatusModifiers
  st_restrictions :: StatusRestrictions
  st_narrationCues :: "string list"
  st_duration :: StatusDuration
  st_cure :: string
  st_source :: "string option"
  st_severity :: "int option"
  st_appliedAt :: "rat option"

record StatusDefinition =
  def_name :: string
  def_type :: StatusType
  def_mechanics :: string
  def_modifiers :: StatusModifiers
  def_restrictions :: StatusRestrictions
  def_narrationCues :: "string list"
  def_dot :: "(string \<times> string) option"

record ProposedDuration =
  pd_type :: "string option"
  pd_value :: "rat option"

record ProposedStatus =
  p_id :: "string option"
  p_name :: "string option"
  p_type :: "string option"
  p_mechanics :: "string option"
  p_trigger :: "string option"
  p_cure :: "string option"
  p_duration :: "ProposedDuration option"
  p_severity :: "rat option"
  p_source :: "string option"
  p_appliedAt :: "rat option"

datatype RemoveEntry = RemoveText string | RemoveObject "string option"

record StatusPayload =
  pl_apply :: "ProposedStatus option list option"
  pl_update :: "ProposedStatus option list option"
  pl_remove :: "RemoveEntry option list option"

record StatusStateInput =
  active_statuses :: "StatusEffect list option"

record StatusUpdatePayload =
  out_apply :: "StatusEffect list"
  out_update :: "StatusEffect list"
  out_remove :: "string list"

text \<open>A field that is present and not the empty string (JavaScript truthiness of a string).\<close>

definition truthy :: "string option \<Rightarrow> bool" where
  "truthy s = (case s of None \<Rightarrow> False | Some t \<Rightarrow> t \<noteq> [])"

text \<open>\<open>String(x || '')\<close> for a text field.\<close>

definition text_or_empty :: "string option \<Rightarrow> string" where
  "text_or_empty s = (case s of None \<Rightarrow> [] | Some t \<Rightarrow> t)"

definition canonicalStatusMap :: "(string \<times> string \<times> string \<times> StatusType) list" where
  "canonicalStatusMap =
     [(''poisoned'', ''poisoned'', ''Poisoned'', Condition),
      (''blinded'', ''blinded'', ''Blinded'', Condition),
      (''charmed'', ''charmed'', ''Charmed'', Condition),
      (''frightened'', ''frightened'', ''Frightened'', Condition),
      (''paralyzed'', ''paralyzed'', ''Paralyzed'', Condition),
      (''restrained'', ''restrained'', ''Restrained'', Condition),
      (''stunned'', ''stunned'', ''Stunned'', Condition),
      (''unconscious'', ''unconscious'', ''Unconscious'', Condition),
      (''invisible'', ''invisible'', ''Invisible'', Condition),
      (''inspired'', ''inspired'', ''Inspired'', Buff),
      (''blessed'', ''blessed'', ''Blessed'', Buff),
      (''cursed'', ''cursed'', ''Cursed'', Debuff),
      (''bleeding'', ''bleeding'', ''Bleeding'', Debuff),
      (''madness'', ''madness'', ''Madness'', Debuff),
      (''fear'', ''fear'', ''Fear'', Debuff),
      (''corruption'', ''corruption'', ''Corruption'', Debuff),
      (''exhaustion'', ''exhaustion'', ''Exhaustion'', Debuff)]"

definition socialOrScenePattern :: rx where
  "socialOrScenePattern =
     word_in (words [''crowd'', ''room'', ''tavern'', ''atmosphere'', ''reputation'', ''tension'',
                     ''patrons'', ''bystanders'', ''onlookers'', ''public'', ''rumor'', ''gossip'',
                     ''npc'', ''bartender'', ''barkeep'', ''innkeeper''])"

definition mechanicsPattern :: rx where
  "mechanicsPattern =
     word_in (alts [lit ''advantage'', lit ''disadvantage'', lit ''speed'', lit ''cannot'',
                    seqs [lit ''can'', apos, lit ''t''], lit ''no reactions'', lit ''bonus'',
                    lit ''penalty'', lit ''halved'', lit ''incapacitated'', lit ''attack roll'',
                    lit ''saving throw'', lit ''ability check'', lit ''ac'', lit ''damage'',
                    lit ''restrained'', lit ''stunned'', lit ''poisoned'', lit ''grappled'',
                    lit ''prone'', lit ''blinded'', lit ''deafened'', lit ''paralyzed'',
                    lit ''unconscious'', lit ''invisible'', lit ''exhaustion'', lit ''critical'',
                    seqs [lit ''auto fail'', Opt (lit ''s'')], lit ''fails''])"

definition triggerPattern :: rx where
  "triggerPattern =
     word_in (words [''save'', ''spell'', ''hit'', ''damage'', ''failed'', ''success'', ''check'',
                     ''dc'', ''poison'', ''venom'', ''curse'', ''ritual'', ''artifact'', ''touch'',
                     ''round'', ''turn'', ''start'', ''end'', ''after'', ''when'', ''on'',
                     ''critical''])"

definition validDuration :: "string list" where
  "validDuration = [''rounds'', ''minutes'', ''scene'', ''until_removed'']"

text \<open>Decimal notation of a number, for the template strings that print a level or tier.\<close>

definition digit_char :: "nat \<Rightarrow> char" where
  "digit_char n = ''0123456789'' ! n"

function show_nat :: "nat \<Rightarrow> string" where
  "show_nat n = (if n < 10 then [digit_char n] else show_nat (n div 10) @ [digit_char (n mod 10)])"
  by pat_completeness auto
termination
  by (relation "measure (\<lambda>n. n)") auto

definition show_int :: "int \<Rightarrow> string" where
  "show_int i = (if i < 0 then CHR ''-'' # show_nat (nat (- i)) else show_nat (nat i))"

definition baseDefinitions :: "(string \<times> StatusDefinition) list" where
  "baseDefinitions =
     [(''poisoned'',
       \<lparr>def_name = ''Poisoned'', def_type = Debuff,
        def_mechanics = ''Disadvantage on attack rolls and ability checks.'',
        def_modifiers = [(''attackRolls'', ''dis''), (''abilityChecks'', ''dis'')],
        def_restrictions = [],
        def_narrationCues = [''nausea'', ''shaky hands'', ''sweat'', ''slowed reactions''],
        def_dot = None\<rparr>),
      (''blinded'',
       \<lparr>def_name = ''Blinded'', def_type = Debuff,
        def_mechanics = ''Automatically fails sight-based checks. Attack rolls against you have advantage. Your attack rolls have disadvantage.'',
        def_modifiers = [(''perceptionSight'', ''auto-fail''),
                         (''attackRolls'', ''dis (self); attackers adv'')],
        def_restrictions = [(''special'', RText ''Cannot target by sight unless guessing location.'')],
        def_narrationCues = [''darkness'', ''blur'', ''hands searching'', ''missteps''],
        def_dot = None\<rparr>),
      (''charmed'',
       \<lparr>def_name = ''Charmed'', def_type = Debuff,
        def_mechanics = ''Cannot willingly attack the charmer. Charmer has advantage on social checks vs you.'',
        def_modifiers = [(''actionAvailability'', ''cannot harm charmer'')],
        def_restrictions = [(''cannotTargetCharmer'', RFlag True)],
        def_narrationCues = [''softened tone'', ''trusting posture'', ''rationalizing requests''],
        def_dot = None\<rparr>),
      (''frightened'',
       \<lparr>def_name = ''Frightened'', def_type = Debuff,
        def_mechanics = ''Disadvantage on attack rolls and ability checks while source is in sight. Cannot willingly move closer.'',
        def_modifiers = [(''attackRolls'', ''dis (source in sight)''),
                         (''abilityChecks'', ''dis (source in sight)'')],
        def_restrictions = [(''cannotApproachSource'', RFlag True)],
        def_narrationCues = [''tight breath'', ''tunnel vision'', ''instinct to flee''],
        def_dot = None\<rparr>),
      (''paralyzed'',
       \<lparr>def_name = ''Paralyzed'', def_type = Debuff,
        def_mechanics = ''Incapacitated; cannot move or speak. Automatically fails STR/DEX saves. Attackers have advantage; melee hits within 5 ft are critical.'',
        def_modifiers = [(''savingThrows'', ''STR/DEX auto-fail''),
                         (''attackRolls'', ''attackers adv; melee crit within 5 ft'')],
        def_restrictions = [(''canAct'', RFlag False), (''canMove'', RFlag False),
                            (''canSpeak'', RFlag False), (''reactionsAllowed'', RFlag False)],
        def_narrationCues = [''frozen muscles'', ''wide eyes'', ''no response''],
        def_dot = None\<rparr>),
      (''restrained'',
       \<lparr>def_name = ''Restrained'', def_type = Debuff,
        def_mechanics = ''Speed 0. Attack rolls against you have advantage. Your attack rolls have disadvantage. Disadvantage on DEX saves.'',
        def_modifiers = [(''movementSpeed'', ''0''),
                         (''attackRolls'', ''dis (self); attackers adv''),
                         (''savingThrows'', ''DEX dis'')],
        def_restrictions = [(''canMove'', RFlag False), (''special'', RText ''Can attempt escape.'')],
        def_narrationCues = [''bindings bite'', ''dragged posture'', ''limited swings''],
        def_dot = None\<rparr>),
      (''stunned'',
       \<lparr>def_name = ''Stunned'', def_type = Debuff,
        def_mechanics = ''Incapacitated; cannot move. Automatically fails STR/DEX saves. Attackers have advantage.'',
        def_modifiers = [(''savingThrows'', ''STR/DEX auto-fail''), (''attackRolls'', ''attackers adv'')],
        def_restrictions = [(''canAct'', RFlag False), (''canMove'', RFlag False),
                            (''reactionsAllowed'', RFlag False)],
        def_narrationCues = [''ringing ears'', ''blank stare'', ''delayed responses''],
        def_dot = None\<rparr>),
      (''unconscious'',
       \<lparr>def_name = ''Unconscious'', def_type = Debuff,
        def_mechanics = ''Incapacitated and prone. Automatically fails STR/DEX saves. Attackers have advantage; melee hits within 5 ft are critical.'',
        def_modifiers = [(''savingThrows'', ''STR/DEX auto-fail''),
                         (''attackRolls'', ''attackers adv; melee crit within 5 ft'')],
        def_restrictions = [(''canAct'', RFlag False), (''canMove'', RFlag False),
                            (''canSpeak'', RFlag False), (''reactionsAllowed'', RFlag False)],
        def_narrationCues = [''collapse'', ''slack limbs'', ''shallow breath''],
        def_dot = None\<rparr>),
      (''invisible'',
       \<lparr>def_name = ''Invisible'', def_type = Buff,
        def_mechanics = ''Cannot be seen without special senses. Your attack rolls have advantage. Attack rolls against you have disadvantage.'',
        def_modifiers = [(''attackRolls'', ''adv (self); attackers dis'')],
        def_restrictions = [(''special'', RText ''Still detectable by sound or tracks.'')],
        def_narrationCues = [''outline vanishes'', ''footsteps remain'', ''air shifts''],
        def_dot = None\<rparr>),
      (''inspired'',
       \<lparr>def_name = ''Inspired'', def_type = Buff,
        def_mechanics = ''Gain advantage on one chosen roll. Consumed on use.'',
        def_modifiers = [(''attackRolls'', ''adv (one roll)''), (''abilityChecks'', ''adv (one roll)''),
                         (''savingThrows'', ''adv (one roll)'')],
        def_restrictions = [(''special'', RText ''Consumed on use.'')],
        def_narrationCues = [''surge of confidence'', ''clear focus'', ''steady hands''],
        def_dot = None\<rparr>),
      (''blessed'',
       \<lparr>def_name = ''Blessed'', def_type = Buff,
        def_mechanics = ''Add 1d4 to attack rolls and saving throws.'',
        def_modifiers = [(''attackRolls'', ''+1d4''), (''savingThrows'', ''+1d4'')],
        def_restrictions = [],
        def_narrationCues = [''faint glow'', ''calm certainty'', ''guided motion''],
        def_dot = None\<rparr>),
      (''cursed'',
       \<lparr>def_name = ''Cursed'', def_type = Debuff,
        def_mechanics = ''Disadvantage on specified rolls or saves, defined by the curse.'',
        def_modifiers = [(''abilityChecks'', ''dis (specified)''), (''savingThrows'', ''dis (specified)'')],
        def_restrictions = [(''special'', RText ''Curse may include compulsion or aversion.'')],
        def_narrationCues = [''cold weight'', ''bad luck'', ''uneasy whispers''],
        def_dot = None\<rparr>),
      (''bleeding'',
       \<lparr>def_name = ''Bleeding'', def_type = Debuff,
        def_mechanics = ''Take damage at start of each turn. Severe bleeding imposes CON check disadvantage.'',
        def_modifiers = [(''abilityChecks'', ''CON dis (severe)'')],
        def_restrictions = [(''special'', RText ''May limit recovery until treated.'')],
        def_narrationCues = [''dripping blood'', ''dizziness'', ''stained clothes''],
        def_dot = Some (''startOfTurn'', ''1d4'')\<rparr>),
      (''madness'',
       \<lparr>def_name = ''Madness'', def_type = Debuff,
        def_mechanics = ''Disadvantage on WIS and CHA checks. Under stress, WIS saves may be required.'',
        def_modifiers = [(''abilityChecks'', ''WIS/CHA dis''), (''savingThrows'', ''WIS dis (under stress)'')],
        def_restrictions = [(''special'', RText ''May lose action on failed stress save.'')],
        def_narrationCues = [''intrusive thoughts'', ''paranoia'', ''dissociation''],
        def_dot = None\<rparr>),
      (''fear'',
       \<lparr>def_name = ''Fear'', def_type = Debuff,
        def_mechanics = ''When confronting the fear trigger, make a WIS save or become Frightened for the scene.'',
        def_modifiers = [(''savingThrows'', ''WIS save on trigger'')],
        def_restrictions = [(''special'', RText ''Avoidance behavior unless save succeeds.'')],
        def_narrationCues = [''flashbacks'', ''freezing'', ''shaky voice''],
        def_dot = None\<rparr>),
      (''corruption'',
       \<lparr>def_name = ''Corruption'', def_type = Debuff,
        def_mechanics = ''Progressive debuff to WIS/CHA with hallucination or impulse triggers at higher tiers.'',
        def_modifiers = [(''savingThrows'', ''WIS penalty by tier''),
                         (''abilityChecks'', ''WIS/CHA dis at tier 2+'')],
        def_restrictions = [(''special'', RText ''At high tier, failed WIS save can force impulse action.'')],
        def_narrationCues = [''dark veins'', ''whispers'', ''cravings'', ''distorted reflections''],
        def_dot = None\<rparr>),
      (''exhaustion'',
       \<lparr>def_name = ''Exhaustion'', def_type = Debuff,
        def_mechanics = ''Exhaustion level effects apply per tier.'',
        def_modifiers = [],
        def_restrictions = [],
        def_narrationCues = [''heavy limbs'', ''shaking'', ''collapse''],
        def_dot = None\<rparr>)]"

definition exhaustionLevels :: "(int \<times> StatusModifiers) list" where
  "exhaustionLevels =
     [(1, [(''abilityChecks'', ''dis'')]),
      (2, [(''movementSpeed'', ''0.5x'')]),
      (3, [(''attackRolls'', ''dis''), (''savingThrows'', ''dis'')]),
      (4, [(''hpMax'', ''0.5x'')]),
      (5, [(''movementSpeed'', ''0''), (''actionAvailability'', ''cannot move'')]),
      (6, [(''actionAvailability'', ''dead'')])]"

text \<open>
  \<open>buildStatusDefinition\<close>. The lookup of a key that the table does not hold gives
  \<open>undefined\<close>, and the function returns \<open>null\<close>. (The keys \<open>constructor\<close> and \<open>__proto__\<close>,
  which a JavaScript object inherits, are found in \<open>canonicalStatusMap\<close> by the caller but
  carry no \<open>id\<close>, and the lookup of \<open>undefined\<close> here gives \<open>null\<close> as well.)
\<close>

definition buildStatusDefinition :: "string \<Rightarrow> int option \<Rightarrow> StatusDefinition option" where
  "buildStatusDefinition normalizedId severity =
     (if normalizedId = ''exhaustion'' then
        (case map_of baseDefinitions ''exhaustion'' of
           None \<Rightarrow> None
         | Some base \<Rightarrow>
             let level = (case severity of Some s \<Rightarrow> s | None \<Rightarrow> 1)
             in Some (base\<lparr>
                  def_name := ''Exhaustion (Level '' @ show_int level @ '')'',
                  def_mechanics := ''Level 1: ability checks disadvantage. Level 2: speed halved. Level 3: attack rolls and saves disadvantage. Level 4: HP max halved. Level 5: speed 0. Level 6: death.'',
                  def_modifiers :=
                    (case map_of exhaustionLevels level of
                       Some m \<Rightarrow> m
                     | None \<Rightarrow> def_modifiers base),
                  def_restrictions :=
                    (if level \<ge> 6
                     then [(''canAct'', RFlag False), (''canMove'', RFlag False),
                           (''canSpeak'', RFlag False), (''reactionsAllowed'', RFlag False)]
                     else if level \<ge> 5 then [(''canMove'', RFlag False)]
                     else [])\<rparr>))
      else if normalizedId = ''corruption'' then
        (case map_of baseDefinitions ''corruption'' of
           None \<Rightarrow> None
         | Some base \<Rightarrow>
             let tier = (case severity of Some s \<Rightarrow> s | None \<Rightarrow> 1)
             in Some (base\<lparr>
                  def_name := ''Corruption (Tier '' @ show_int tier @ '')'',
                  def_modifiers :=
                    (if tier = 1 then [(''savingThrows'', ''WIS -1 (or dis once per scene)'')]
                     else if tier = 2
                     then [(''abilityChecks'', ''WIS/CHA dis''), (''savingThrows'', ''WIS dis on trigger'')]
                     else [(''abilityChecks'', ''WIS/CHA dis''), (''savingThrows'', ''WIS dis''),
                           (''damage'', ''impulse risk'')]),
                  def_restrictions :=
                    (if tier \<ge> 3
                     then [(''special'', RText ''On failed WIS save, DM may force one harmful impulse.'')]
                     else def_restrictions base)\<rparr>))
      else map_of baseDefinitions normalizedId)"

text \<open>\<open>text.match(/(\d+)/)\<close>: the first maximal run of digits, and its \<open>Number\<close>.\<close>

definition digit_unit :: "char \<Rightarrow> bool" where
  "digit_unit c = is_digit (of_char c)"

definition first_digits :: "string \<Rightarrow> string option" where
  "first_digits s =
     (let r = dropWhile (\<lambda>c. \<not> digit_unit c) s
      in if r = [] then None else Some (takeWhile digit_unit r))"

definition number_of_digits :: "string \<Rightarrow> int" where
  "number_of_digits ds = foldl (\<lambda>a c. 10 * a + (of_char c - 48)) 0 ds"

text \<open>
  The level of an exhaustion and the tier of a corruption: the first number in the id,
  else the first number in the name, else the floored severity.
\<close>

definition tier_of :: "string \<Rightarrow> string \<Rightarrow> int option \<Rightarrow> int option" where
  "tier_of rawId rawName normalizedSeverity =
     (case first_digits rawId of
        Some ds \<Rightarrow> Some (number_of_digits ds)
      | None \<Rightarrow>
          (case first_digits rawName of
             Some ds \<Rightarrow> Some (number_of_digits ds)
           | None \<Rightarrow> normalizedSeverity))"

text \<open>
  The branch of \<open>normalizeEntry\<close> that fixes \<open>normalizedId\<close>, \<open>normalizedName\<close>,
  \<open>normalizedSeverity\<close> and \<open>normalizedType\<close>; \<open>None\<close> is its \<open>return null\<close>.
\<close>

definition canonicalId ::
  "string \<Rightarrow> string \<Rightarrow> int option \<Rightarrow> (string \<times> string \<times> int option \<times> StatusType) option" where
  "canonicalId rawId rawName normalizedSeverity =
     (if startsWith rawId ''exhaustion'' \<or> rx_test True (lit ''exhaustion'') rawName then
        (case tier_of rawId rawName normalizedSeverity of
           None \<Rightarrow> None
         | Some level \<Rightarrow>
             if level = 0 \<or> level < 1 \<or> level > 6 then None
             else Some (''exhaustion'', ''Exhaustion (Level '' @ show_int level @ '')'',
                        Some level, Debuff))
      else if startsWith rawId ''corruption'' \<or> rx_test True (lit ''corruption'') rawName then
        (case tier_of rawId rawName normalizedSeverity of
           None \<Rightarrow> None
         | Some tier \<Rightarrow>
             if tier = 0 \<or> tier < 1 \<or> tier > 3 then None
             else Some (''corruption'', ''Corruption (Tier '' @ show_int tier @ '')'',
                        Some tier, Debuff))
      else
        (case map_of canonicalStatusMap rawId of
           None \<Rightarrow> None
         | Some canonical \<Rightarrow>
             Some (fst canonical, fst (snd canonical), normalizedSeverity, snd (snd canonical))))"

definition normalizeEntry :: "ProposedStatus option \<Rightarrow> StatusEffect option" where
  "normalizeEntry entry =
     (case entry of
        None \<Rightarrow> None
      | Some e \<Rightarrow>
          if \<not> truthy (p_id e) \<or> \<not> truthy (p_name e) \<or> \<not> truthy (p_mechanics e) then None
          else
            let rawId = toLowerCase (trim (text_or_empty (p_id e)));
                rawName = trim (text_or_empty (p_name e));
                mechanics = trim (text_or_empty (p_mechanics e));
                trigger = trim (text_or_empty (p_trigger e));
                cure = trim (text_or_empty (p_cure e))
            in if rawId = [] \<or> rawName = [] \<or> mechanics = [] \<or> trigger = [] \<or> cure = [] then None
               else if rx_test True socialOrScenePattern rawName
                     \<or> rx_test True socialOrScenePattern mechanics
                     \<or> rx_test True socialOrScenePattern trigger
                     \<or> rx_test True socialOrScenePattern cure then None
               else if \<not> rx_test True mechanicsPattern mechanics then None
               else if \<not> rx_test True triggerPattern trigger then None
               else
                 (case Option.bind (p_duration e) pd_type of
                    None \<Rightarrow> None
                  | Some durationType \<Rightarrow>
                      if durationType = [] \<or> durationType \<notin> set validDuration then None
                      else
                        (case canonicalId rawId rawName (map_option floor (p_severity e)) of
                           None \<Rightarrow> None
                         | Some n \<Rightarrow>
                             (case buildStatusDefinition (fst n) (fst (snd (snd n))) of
                                None \<Rightarrow> None
                              | Some definition \<Rightarrow>
                                  Some \<lparr>st_id = fst n,
                                        st_name = (if def_name definition \<noteq> [] then def_name definition
                                                   else fst (snd n)),
                                        st_type = def_type definition,
                                        st_mechanics = def_mechanics definition,
                                        st_trigger = trigger,
                                        st_modifiers = def_modifiers definition,
                                        st_restrictions = def_restrictions definition,
                                        st_narrationCues = def_narrationCues definition,
                                        st_duration =
                                          \<lparr>dur_type = durationType,
                                           dur_value = Option.bind (p_duration e) pd_value\<rparr>,
                                        st_cure = cure,
                                        st_source =
                                          (if truthy (p_source e) then p_source e else None),
                                        st_severity = fst (snd (snd n)),
                                        st_appliedAt = p_appliedAt e\<rparr>))))"

definition normalizeRemove :: "RemoveEntry option \<Rightarrow> string option" where
  "normalizeRemove entry =
     (case entry of
        None \<Rightarrow> None
      | Some (RemoveText t) \<Rightarrow> if t = [] then None else Some t
      | Some (RemoveObject i) \<Rightarrow> if truthy i then i else None)"

definition normalizeStatusUpdate ::
  "StatusPayload option \<Rightarrow> StatusStateInput \<Rightarrow> StatusUpdatePayload" where
  "normalizeStatusUpdate payload statusState =
     (let apply_list = (case Option.bind payload pl_apply of None \<Rightarrow> [] | Some l \<Rightarrow> l);
          update_list = (case Option.bind payload pl_update of None \<Rightarrow> [] | Some l \<Rightarrow> l);
          remove_list = (case Option.bind payload pl_remove of None \<Rightarrow> [] | Some l \<Rightarrow> l);
          activeIds =
            map st_id (case active_statuses statusState of None \<Rightarrow> [] | Some l \<Rightarrow> l);
          prunedApply0 =
            filter (\<lambda>entry. case entry of
                       None \<Rightarrow> False
                     | Some e \<Rightarrow> truthy (p_id e) \<and> truthy (p_name e)) apply_list;
          prunedApply1 =
            filter (\<lambda>entry. text_or_empty (Option.bind entry p_id) \<notin> set activeIds) prunedApply0;
          prunedApply = (if length prunedApply1 > 1 then take 1 prunedApply1 else prunedApply1)
      in \<lparr>out_apply = List.map_filter normalizeEntry prunedApply,
          out_update = List.map_filter normalizeEntry update_list,
          out_remove = List.map_filter normalizeRemove remove_list\<rparr>)"

subsection \<open>Sample inputs of the text services\<close>

text \<open>A segment whose text starts with \<open>I ask\<close> (a speech marker) and holds \<open>i ask for\<close> (a
  request marker).\<close>

definition demo_segment :: Segment where
  "demo_segment = \<lparr>seg_id = ''seg-1'', seg_text = ''I ask for ale'', hint = None, confidence = None,
                    anchorMatch = None, noRollCandidate = None, markers = None\<rparr>"

text \<open>
  A character on whom \<open>poisoned\<close> is active, and a proposal of the generative model to apply
  \<open>Poisoned\<close>, the id written with a capital as the prompt writes the names.
\<close>

definition demo_active_poisoned :: StatusEffect where
  "demo_active_poisoned =
     \<lparr>st_id = ''poisoned'', st_name = ''Poisoned'', st_type = Debuff,
      st_mechanics = ''Disadvantage on attack rolls and ability checks.'',
      st_trigger = ''failed save'',
      st_modifiers = [(''attackRolls'', ''dis''), (''abilityChecks'', ''dis'')],
      st_restrictions = [],
      st_narrationCues = [''nausea'', ''shaky hands'', ''sweat'', ''slowed reactions''],
      st_duration = \<lparr>dur_type = ''rounds'', dur_value = Some 3\<rparr>,
      st_cure = ''antidote'', st_source = None, st_severity = None, st_appliedAt = None\<rparr>"

definition demo_proposal :: ProposedStatus where
  "demo_proposal =
     \<lparr>p_id = Some ''Poisoned'', p_name = Some ''Poisoned'', p_type = Some ''condition'',
      p_mechanics = Some ''Disadvantage on attack rolls'', p_trigger = Some ''failed save'',
      p_cure = Some ''antidote'',
      p_duration = Some \<lparr>pd_type = Some ''rounds'', pd_value = Some 3\<rparr>,
      p_severity = None, p_source = None, p_appliedAt = None\<rparr>"

definition demo_payload :: StatusPayload where
  "demo_payload = \<lparr>pl_apply = Some [Some demo_proposal], pl_update = Some [], pl_remove = Some []\<rparr>"

definition demo_status_state :: StatusStateInput where
  "demo_status_state = \<lparr>active_statuses = Some [demo_active_poisoned]\<rparr>"

section \<open>The route \<open>/dm-response\<close> (backend/src/routes/diceRoutes.ts)\<close>

text \<open>
  The handler keeps three maps keyed by campaign: \<open>pendingChecks\<close>, \<open>gameStateByCampaign\<close>
  and, in the combat service, \<open>battles\<close>. \<open>pendingChecks\<close> is modelled as the list of the
  entries of the JavaScript \<open>Map\<close> in insertion order, with \<open>Map.set\<close> as \<open>AList.update\<close>
  and \<open>Map.delete\<close> as \<open>AList.delete\<close>, so that "one entry for a campaign" is a property to
  prove and not one of the type.
\<close>

datatype CheckType = CAttack | CSkill | CSave | CContest | CPerception | CSocial | CStealth | CMagic

datatype Difficulty = Opposed | DC rat

record CheckIntent =
  ci_action :: string
  ci_tags :: "string list"
  ci_target :: "string option"

record PendingCheck =
  pc_id :: string
  pc_type :: CheckType
  pc_actor :: string
  pc_target :: "string option"
  pc_targetLabel :: "string option"
  pc_stat :: string
  pc_difficulty :: Difficulty
  pc_context :: string
  pc_reason :: string
  pc_actionLabel :: "string option"
  pc_domain :: "string option"
  pc_skill :: "string option"
  pc_intentType :: "string option"
  pc_intent :: "CheckIntent option"





record GameState =
  gs_lastResolvedAction :: "LastResolvedAction option"
  gs_turnIndex :: "int option"

record ServerState =
  pendingChecks :: "(string \<times> PendingCheck) list"
  gameStateByCampaign :: "string \<rightharpoonup> GameState"
  sv_battles :: Battles































text \<open>The pending checks of one campaign, as many as the map holds entries for its key.\<close>

definition checksOf :: "ServerState \<Rightarrow> string \<Rightarrow> PendingCheck list" where
  "checksOf st campaignKey = map snd (filter (\<lambda>entry. fst entry = campaignKey) (pendingChecks st))"

subsection \<open>The pending check of a campaign\<close>













section \<open>Properties of the combat engine\<close>

lemma rollDie_range:
  assumes "0 \<le> rnd 0" and "rnd 0 < 1" and "0 < faces"
  shows "1 \<le> fst (rollDie faces rnd) \<and> fst (rollDie faces rnd) \<le> faces"
proof -
  have a: "0 \<le> rnd 0 * of_int faces" using assms by simp
  have b: "rnd 0 * of_int faces < of_int faces" using assms by simp
  have "0 \<le> \<lfloor>rnd 0 * of_int faces\<rfloor>" using a by simp
  moreover have "\<lfloor>rnd 0 * of_int faces\<rfloor> < faces" using b by (simp add: floor_less_iff)
  ultimately show ?thesis by (simp add: rollDie_def)
qed

lemma clamp_Num: "clamp (Num v) (Num lo) (Num hi) = Num (max lo (min hi v))"
  by (simp add: clamp_def)

lemma js_le_Num: "js_le (Num a) x \<longleftrightarrow> (\<exists>b. x = Num b \<and> a \<le> b)"
  by (cases x) simp_all

lemma js_le_Num2: "js_le x (Num b) \<longleftrightarrow> (\<exists>a. x = Num a \<and> a \<le> b)"
  by (cases x) simp_all

lemma js_gt_Num: "js_gt x (Num b) \<longleftrightarrow> (\<exists>a. x = Num a \<and> b < a)"
  by (cases x) simp_all

lemma clamp_range:
  "js_le (Num 0) hi \<Longrightarrow> v \<noteq> NaN
   \<Longrightarrow> js_le (Num 0) (clamp v (Num 0) hi) \<and> js_le (clamp v (Num 0) hi) hi"
  by (cases v; cases hi) (simp_all add: clamp_def)

lemma hp_ok_Num: "hp_ok e \<longleftrightarrow> (\<exists>h m. hp e = Num h \<and> hp_max e = Num m \<and> 0 \<le> h \<and> h \<le> m)"
  by (cases "hp e"; cases "hp_max e") (simp_all add: hp_ok_def)

lemma find_in_set: "find P xs = Some x \<Longrightarrow> x \<in> set xs \<and> P x"
  by (induction xs) (auto split: if_splits)

lemma mutate_found_set:
  "find P xs = Some x \<Longrightarrow> set (mutate_found P f xs) \<subseteq> insert (f x) (set xs)"
  by (induction xs) (auto split: if_splits)

lemma mutate_found_none: "find P xs = None \<Longrightarrow> mutate_found P f xs = xs"
  by (induction xs) (auto split: if_splits)

lemma mutate_found_map:
  "(\<And>x. g (f x) = g x) \<Longrightarrow> map g (mutate_found P f xs) = map g xs"
  by (induction xs) auto

lemma resolveAttack_found:
  assumes "target intent = Some targetId" and "targetId \<noteq> []"
    and "find (\<lambda>entity. ent_id entity = actor intent) (entities state) = Some attacker"
    and "find (\<lambda>entity. ent_id entity = targetId) (entities state) = Some tgt"
  shows "resolveAttack state intent events attackRoll rnd =
           strike state targetId attacker tgt events attackRoll rnd"
  using assms by (simp add: resolveAttack_def)

lemma resolveAttack_noop:
  assumes "target intent = None \<or> target intent = Some []
         \<or> find (\<lambda>entity. ent_id entity = actor intent) (entities state) = None
         \<or> find (\<lambda>entity. ent_id entity = the (target intent)) (entities state) = None"
  shows "resolveAttack state intent events attackRoll rnd = (state, events, rnd)"
  using assms by (auto simp: resolveAttack_def split: option.splits)

lemma strike_hit:
  assumes "attack_hit (fst (attack_d20 attackRoll rnd))
             (attack_total attackRoll (fst (attack_d20 attackRoll rnd))
                (attack_bonus attackRoll (fst (attack_d20 attackRoll rnd))))"
  shows "strike state targetId attacker tgt events attackRoll rnd =
     (let d = fst (attack_d20 attackRoll rnd);
          rnd1 = snd (attack_d20 attackRoll rnd);
          b = attack_bonus attackRoll d;
          t = attack_total attackRoll d b;
          dmg = attack_damage tgt (d = 20) (fst (attack_baseDamage attacker rnd1));
          new_hp = clamp (js_minus (hp tgt) (Num dmg)) (Num 0) (hp_max tgt)
      in (state\<lparr>entities := mutate_found (\<lambda>entity. ent_id entity = targetId)
                           (\<lambda>entity. entity\<lparr>hp := new_hp\<rparr>) (entities state)\<rparr>,
      events @ ATTACK_RESOLVED (ent_id attacker) (ent_id tgt) True d b t (d = 20) (d = 1) 10
        # DAMAGE_APPLIED (ent_id tgt) dmg (ent_id attacker) new_hp
        # (if new_hp = Num 0 then [ENEMY_DEFEATED (ent_id tgt)] else []),
      snd (attack_baseDamage attacker rnd1)))"
  using assms unfolding strike_def applyDamage_def Let_def by simp

lemma strike_miss:
  assumes "\<not> attack_hit (fst (attack_d20 attackRoll rnd))
             (attack_total attackRoll (fst (attack_d20 attackRoll rnd))
                (attack_bonus attackRoll (fst (attack_d20 attackRoll rnd))))"
  shows "strike state targetId attacker tgt events attackRoll rnd =
     (let d = fst (attack_d20 attackRoll rnd);
          b = attack_bonus attackRoll d;
          t = attack_total attackRoll d b
      in (state,
          events @ [ATTACK_RESOLVED (ent_id attacker) (ent_id tgt) False d b t (d = 20) (d = 1) 10],
          snd (attack_d20 attackRoll rnd)))"
  using assms unfolding strike_def Let_def by simp

lemma attack_hit_iff: "attack_hit d t \<longleftrightarrow> d = 20 \<or> (d \<noteq> 1 \<and> t \<ge> 10)"
  by (auto simp: attack_hit_def)

text \<open>An attack changes nothing of the state but the hit points of the target.\<close>

lemma strike_entities:
  assumes "find (\<lambda>entity. ent_id entity = targetId) (entities state) = Some tgt"
  shows "\<exists>h. entities (fst (strike state targetId attacker tgt events attackRoll rnd)) = entities state
           \<or> (entities (fst (strike state targetId attacker tgt events attackRoll rnd)) =
                mutate_found (\<lambda>entity. ent_id entity = targetId)
                   (\<lambda>entity. entity\<lparr>hp := clamp (js_minus (hp tgt) (Num h)) (Num 0) (hp_max tgt)\<rparr>)
                   (entities state))"
proof (cases "attack_hit (fst (attack_d20 attackRoll rnd))
             (attack_total attackRoll (fst (attack_d20 attackRoll rnd))
                (attack_bonus attackRoll (fst (attack_d20 attackRoll rnd))))")
  case True
  show ?thesis unfolding strike_hit [OF True] Let_def by auto
next
  case False
  show ?thesis unfolding strike_miss [OF False] Let_def by simp
qed

lemma strike_hp_ok:
  assumes f: "find (\<lambda>entity. ent_id entity = targetId) (entities state) = Some tgt"
    and inv: "\<forall>e \<in> set (entities state). hp_ok e"
  shows "\<forall>e \<in> set (entities (fst (strike state targetId attacker tgt events attackRoll rnd))). hp_ok e"
proof -
  have tin: "tgt \<in> set (entities state)" using f find_in_set by fastforce
  then have "hp_ok tgt" using inv by simp
  then obtain h0 m0 where hm: "hp tgt = Num h0" "hp_max tgt = Num m0" "0 \<le> h0" "h0 \<le> m0"
    unfolding hp_ok_Num by blast
  obtain h where h: "entities (fst (strike state targetId attacker tgt events attackRoll rnd)) = entities state
           \<or> (entities (fst (strike state targetId attacker tgt events attackRoll rnd)) =
                mutate_found (\<lambda>entity. ent_id entity = targetId)
                   (\<lambda>entity. entity\<lparr>hp := clamp (js_minus (hp tgt) (Num h)) (Num 0) (hp_max tgt)\<rparr>)
                   (entities state))"
    using strike_entities [OF f] by blast
  have ok: "hp_ok (tgt\<lparr>hp := clamp (js_minus (hp tgt) (Num h)) (Num 0) (hp_max tgt)\<rparr>)"
    using hm by (simp add: hp_ok_def clamp_Num)
  from h show ?thesis
  proof
    assume "entities (fst (strike state targetId attacker tgt events attackRoll rnd)) = entities state"
    then show ?thesis using inv by simp
  next
    assume e: "entities (fst (strike state targetId attacker tgt events attackRoll rnd)) =
                mutate_found (\<lambda>entity. ent_id entity = targetId)
                   (\<lambda>entity. entity\<lparr>hp := clamp (js_minus (hp tgt) (Num h)) (Num 0) (hp_max tgt)\<rparr>)
                   (entities state)"
    show ?thesis unfolding e
      using mutate_found_set [OF f, of "\<lambda>entity. entity\<lparr>hp := clamp (js_minus (hp tgt) (Num h)) (Num 0) (hp_max tgt)\<rparr>"] ok inv
      by auto
  qed
qed

lemma resolveAttack_hp_ok:
  assumes inv: "\<forall>e \<in> set (entities state). hp_ok e"
  shows "\<forall>e \<in> set (entities (fst (resolveAttack state intent events attackRoll rnd))). hp_ok e"
proof (cases "target intent = None \<or> target intent = Some []
         \<or> find (\<lambda>entity. ent_id entity = actor intent) (entities state) = None
         \<or> find (\<lambda>entity. ent_id entity = the (target intent)) (entities state) = None")
  case True
  show ?thesis unfolding resolveAttack_noop [OF True] using inv by simp
next
  case False
  then obtain tid attacker tgt where a: "target intent = Some tid" "tid \<noteq> []"
    "find (\<lambda>entity. ent_id entity = actor intent) (entities state) = Some attacker"
    "find (\<lambda>entity. ent_id entity = tid) (entities state) = Some tgt"
    by auto
  show ?thesis unfolding resolveAttack_found [OF a] using strike_hp_ok [OF a(4) inv] by simp
qed

lemma demo_entities: "entities demo_state = [demo_player, demo_enemy]"
  by (simp add: demo_state_def startBattle_def appendLog_def Let_def)

text \<open>
  Claim C1. In every attack that \<open>resolveAttack\<close> resolves (attacker and target found), the
  \<open>ATTACK_RESOLVED\<close> event carries \<open>hit = (d20 = 20 \<or> (d20 \<noteq> 1 \<and> total \<ge> 10))\<close>, with \<open>ac = 10\<close>:
  a d20 of 20 hits and a d20 of 1 misses whatever the total is, and any other d20 hits
  exactly when the total reaches 10. Damage is applied exactly when \<open>hit\<close> holds; on a miss
  the state is unchanged. A supplied d20 or total is used as it is.
\<close>

theorem resolveAttack_hit_rule:
  assumes "target intent = Some targetId" and "targetId \<noteq> []"
    and "find (\<lambda>entity. ent_id entity = actor intent) (entities state) = Some attacker"
    and "find (\<lambda>entity. ent_id entity = targetId) (entities state) = Some tgt"
  shows "let d = fst (attack_d20 attackRoll rnd);
             b = attack_bonus attackRoll d;
             t = attack_total attackRoll d b;
             hit = (d = 20 \<or> (d \<noteq> 1 \<and> t \<ge> 10));
             out = resolveAttack state intent events attackRoll rnd
         in (\<exists>rest. fst (snd out) =
                 events @ ATTACK_RESOLVED (ent_id attacker) (ent_id tgt) hit d b t (d = 20) (d = 1) 10 # rest
               \<and> (hit \<longleftrightarrow> (\<exists>amount remaining more.
                      rest = DAMAGE_APPLIED (ent_id tgt) amount (ent_id attacker) remaining # more))
               \<and> (\<not> hit \<longrightarrow> rest = [] \<and> fst out = state))
            \<and> (d = 20 \<longrightarrow> hit) \<and> (d = 1 \<longrightarrow> \<not> hit)
            \<and> (\<forall>v. Option.bind attackRoll d20 = Some v \<longrightarrow> d = v)
            \<and> (\<forall>v. Option.bind attackRoll total = Some v \<longrightarrow> t = v)"
proof -
  define d where "d = fst (attack_d20 attackRoll rnd)"
  define b where "b = attack_bonus attackRoll d"
  define t where "t = attack_total attackRoll d b"
  define out where "out = resolveAttack state intent events attackRoll rnd"
  have out: "out = strike state targetId attacker tgt events attackRoll rnd"
    unfolding out_def by (rule resolveAttack_found [OF assms])
  have sup: "(\<forall>v. Option.bind attackRoll d20 = Some v \<longrightarrow> d = v)
           \<and> (\<forall>v. Option.bind attackRoll total = Some v \<longrightarrow> t = v)"
    by (simp add: d_def t_def attack_d20_def attack_total_def)
  have ev: "\<exists>rest. fst (snd out) =
                 events @ ATTACK_RESOLVED (ent_id attacker) (ent_id tgt) (d = 20 \<or> (d \<noteq> 1 \<and> t \<ge> 10)) d b t (d = 20) (d = 1) 10 # rest
               \<and> ((d = 20 \<or> (d \<noteq> 1 \<and> t \<ge> 10)) \<longleftrightarrow> (\<exists>amount remaining more.
                      rest = DAMAGE_APPLIED (ent_id tgt) amount (ent_id attacker) remaining # more))
               \<and> (\<not> (d = 20 \<or> (d \<noteq> 1 \<and> t \<ge> 10)) \<longrightarrow> rest = [] \<and> fst out = state)"
  proof (cases "attack_hit d t")
    case True
    then have h: "d = 20 \<or> (d \<noteq> 1 \<and> t \<ge> 10)" by (simp add: attack_hit_iff)
    have "fst (snd out) = events @ ATTACK_RESOLVED (ent_id attacker) (ent_id tgt) True d b t (d = 20) (d = 1) 10
        # DAMAGE_APPLIED (ent_id tgt)
            (attack_damage tgt (d = 20) (fst (attack_baseDamage attacker (snd (attack_d20 attackRoll rnd)))))
            (ent_id attacker)
            (clamp (js_minus (hp tgt) (Num (attack_damage tgt (d = 20) (fst (attack_baseDamage attacker (snd (attack_d20 attackRoll rnd))))))) (Num 0) (hp_max tgt))
        # (if clamp (js_minus (hp tgt) (Num (attack_damage tgt (d = 20) (fst (attack_baseDamage attacker (snd (attack_d20 attackRoll rnd))))))) (Num 0) (hp_max tgt) = Num 0
           then [ENEMY_DEFEATED (ent_id tgt)] else [])"
      using True unfolding out d_def b_def t_def by (simp add: strike_hit Let_def)
    then show ?thesis using h by simp
  next
    case False
    then have h: "\<not> (d = 20 \<or> (d \<noteq> 1 \<and> t \<ge> 10))" by (simp add: attack_hit_iff)
    have "fst (snd out) = events @ [ATTACK_RESOLVED (ent_id attacker) (ent_id tgt) False d b t (d = 20) (d = 1) 10]
        \<and> fst out = state"
      using False unfolding out d_def b_def t_def by (simp add: strike_miss Let_def)
    then show ?thesis using h by simp
  qed
  show ?thesis
    unfolding Let_def d_def [symmetric] b_def [symmetric] t_def [symmetric] out_def [symmetric]
    by (intro conjI; (rule ev | use sup in simp))
qed

theorem resolveAttack_hit_rule_witness:
  "target demo_attack = Some ''enemy-0'' \<and> ''enemy-0'' \<noteq> []
   \<and> find (\<lambda>entity. ent_id entity = actor demo_attack) (entities demo_state) = Some demo_player
   \<and> find (\<lambda>entity. ent_id entity = ''enemy-0'') (entities demo_state) = Some demo_enemy
   \<and> (let d = fst (attack_d20 (Some \<lparr>d20 = Some 20, bonus = None, total = Some 2\<rparr>) (\<lambda>n. 0));
             b = attack_bonus (Some \<lparr>d20 = Some 20, bonus = None, total = Some 2\<rparr>) d;
             t = attack_total (Some \<lparr>d20 = Some 20, bonus = None, total = Some 2\<rparr>) d b;
             hit = (d = 20 \<or> (d \<noteq> 1 \<and> t \<ge> 10));
             out = resolveAttack demo_state demo_attack [] (Some \<lparr>d20 = Some 20, bonus = None, total = Some 2\<rparr>) (\<lambda>n. 0)
         in (\<exists>rest. fst (snd out) =
                 [] @ ATTACK_RESOLVED (ent_id demo_player) (ent_id demo_enemy) hit d b t (d = 20) (d = 1) 10 # rest
               \<and> (hit \<longleftrightarrow> (\<exists>amount remaining more.
                      rest = DAMAGE_APPLIED (ent_id demo_enemy) amount (ent_id demo_player) remaining # more))
               \<and> (\<not> hit \<longrightarrow> rest = [] \<and> fst out = demo_state))
            \<and> (d = 20 \<longrightarrow> hit) \<and> (d = 1 \<longrightarrow> \<not> hit)
            \<and> (\<forall>v. Option.bind (Some \<lparr>d20 = Some 20, bonus = None, total = Some 2\<rparr>) d20 = Some v \<longrightarrow> d = v)
            \<and> (\<forall>v. Option.bind (Some \<lparr>d20 = Some 20, bonus = None, total = Some 2\<rparr>) total = Some v \<longrightarrow> t = v))
   \<and> fst (attack_d20 (Some \<lparr>d20 = Some 20, bonus = None, total = Some 2\<rparr>) (\<lambda>n. 0)) = 20"
proof -
  have h1: "target demo_attack = Some ''enemy-0''" by (simp add: demo_attack_def)
  have h2: "''enemy-0'' \<noteq> []" by simp
  have h3: "find (\<lambda>entity. ent_id entity = actor demo_attack) (entities demo_state) = Some demo_player"
    by (simp add: demo_entities demo_attack_def demo_player_def)
  have h4: "find (\<lambda>entity. ent_id entity = ''enemy-0'') (entities demo_state) = Some demo_enemy"
    by (simp add: demo_entities demo_player_def demo_enemy_def)
  have h5: "fst (attack_d20 (Some \<lparr>d20 = Some 20, bonus = None, total = Some 2\<rparr>) (\<lambda>n. 0)) = 20"
    by (simp add: attack_d20_def)
  show ?thesis
    using h1 h2 h3 h4 h5
      resolveAttack_hit_rule [OF h1 h2 h3 h4, of "Some \<lparr>d20 = Some 20, bonus = None, total = Some 2\<rparr>" "\<lambda>n. 0" "[]"]
    by (intro conjI)
qed

lemma attack_damage_eq:
  "attack_damage tgt critical baseDamage =
     (if ent_type tgt = Player \<and> (\<exists>s \<in> set (statuses tgt). key s = ''defending'')
      then max 1 ((if critical then baseDamage * 2 else baseDamage) div 2)
      else (if critical then baseDamage * 2 else baseDamage))"
proof (cases "find (\<lambda>status. key status = ''defending'') (statuses tgt)")
  case None
  then have "\<not> (\<exists>s \<in> set (statuses tgt). key s = ''defending'')"
    by (simp add: find_None_iff)
  then show ?thesis using None by (simp add: attack_damage_def)
next
  case (Some a)
  then have "\<exists>s \<in> set (statuses tgt). key s = ''defending''"
    using find_in_set by fastforce
  then show ?thesis using Some by (simp add: attack_damage_def)
qed

lemma attack_baseDamage_eq:
  "fst (attack_baseDamage attacker rnd) =
     fst (rollDie (if ent_type attacker = Player then 8 else 6) rnd)
       + (if ent_type attacker = Player then 2 else 1)"
  by (simp add: attack_baseDamage_def)

text \<open>
  Claim C2. On a hit, the damage of \<open>DAMAGE_APPLIED\<close> is one die of 8 faces plus 2 when the
  attacker is the player and one die of 6 faces plus 1 otherwise, doubled when the d20
  showed 20; when the target is a player with a \<open>defending\<close> status, that amount is halved
  after the doubling, rounded down, and is at least 1. The target's hit points become
  \<open>hp - damage\<close> clamped to \<open>[0, hp_max]\<close> (and \<open>NaN\<close> when one of the two is \<open>NaN\<close>). A die lies between 1 and its number of faces
  when \<open>Math.random()\<close> is in \<open>[0, 1)\<close>. The witness is the scenario of the specification:
  a non-critical hit of the enemy with total 15 and base damage 5 on the defending player
  applies \<open>max 1 (5 div 2) = 2\<close>.
\<close>

theorem resolveAttack_damage:
  assumes "target intent = Some targetId" and "targetId \<noteq> []"
    and "find (\<lambda>entity. ent_id entity = actor intent) (entities state) = Some attacker"
    and "find (\<lambda>entity. ent_id entity = targetId) (entities state) = Some tgt"
  shows "let d = fst (attack_d20 attackRoll rnd);
             rnd1 = snd (attack_d20 attackRoll rnd);
             b = attack_bonus attackRoll d;
             t = attack_total attackRoll d b;
             faces = (if ent_type attacker = Player then 8 else 6);
             die = fst (rollDie faces rnd1);
             base = die + (if ent_type attacker = Player then 2 else 1);
             dmg = (if d = 20 then base * 2 else base);
             defending = (ent_type tgt = Player \<and> (\<exists>s \<in> set (statuses tgt). key s = ''defending''));
             applied = (if defending then max 1 (dmg div 2) else dmg);
             new_hp = (case (hp tgt, hp_max tgt) of
                         (Num h, Num m) \<Rightarrow> Num (max 0 (min m (h - applied)))
                       | _ \<Rightarrow> NaN);
             out = resolveAttack state intent events attackRoll rnd
         in (d = 20 \<or> (d \<noteq> 1 \<and> t \<ge> 10) \<longrightarrow>
               (\<exists>rest. fst (snd out) =
                   events @ ATTACK_RESOLVED (ent_id attacker) (ent_id tgt) True d b t (d = 20) (d = 1) 10
                     # DAMAGE_APPLIED (ent_id tgt) applied (ent_id attacker) new_hp # rest)
               \<and> entities (fst out) =
                   mutate_found (\<lambda>entity. ent_id entity = targetId)
                     (\<lambda>entity. entity\<lparr>hp := new_hp\<rparr>) (entities state))
            \<and> (0 \<le> rnd1 0 \<and> rnd1 0 < 1 \<longrightarrow> 1 \<le> die \<and> die \<le> faces)"
proof -
  define d where "d = fst (attack_d20 attackRoll rnd)"
  define rnd1 where "rnd1 = snd (attack_d20 attackRoll rnd)"
  define b where "b = attack_bonus attackRoll d"
  define t where "t = attack_total attackRoll d b"
  define faces :: int where "faces = (if ent_type attacker = Player then 8 else 6)"
  define die where "die = fst (rollDie faces rnd1)"
  define applied where "applied = attack_damage tgt (d = 20) (fst (attack_baseDamage attacker rnd1))"
  define new_hp where "new_hp = clamp (js_minus (hp tgt) (Num applied)) (Num 0) (hp_max tgt)"
  define out where "out = resolveAttack state intent events attackRoll rnd"
  have out: "out = strike state targetId attacker tgt events attackRoll rnd"
    unfolding out_def by (rule resolveAttack_found [OF assms])
  have range: "0 \<le> rnd1 0 \<and> rnd1 0 < 1 \<longrightarrow> 1 \<le> die \<and> die \<le> faces"
    unfolding die_def using rollDie_range [of rnd1 faces] by (simp add: faces_def)
  have hit: "d = 20 \<or> (d \<noteq> 1 \<and> t \<ge> 10) \<longrightarrow>
               (\<exists>rest. fst (snd out) =
                   events @ ATTACK_RESOLVED (ent_id attacker) (ent_id tgt) True d b t (d = 20) (d = 1) 10
                     # DAMAGE_APPLIED (ent_id tgt) applied (ent_id attacker) new_hp # rest)
               \<and> entities (fst out) =
                   mutate_found (\<lambda>entity. ent_id entity = targetId)
                     (\<lambda>entity. entity\<lparr>hp := new_hp\<rparr>) (entities state)"
  proof
    assume "d = 20 \<or> (d \<noteq> 1 \<and> t \<ge> 10)"
    then have h: "attack_hit d t" by (simp add: attack_hit_iff)
    have "out = (state\<lparr>entities := mutate_found (\<lambda>entity. ent_id entity = targetId)
                           (\<lambda>entity. entity\<lparr>hp := new_hp\<rparr>) (entities state)\<rparr>,
      events @ ATTACK_RESOLVED (ent_id attacker) (ent_id tgt) True d b t (d = 20) (d = 1) 10
        # DAMAGE_APPLIED (ent_id tgt) applied (ent_id attacker) new_hp
        # (if new_hp = Num 0 then [ENEMY_DEFEATED (ent_id tgt)] else []),
      snd (attack_baseDamage attacker rnd1))"
      using h unfolding out d_def b_def t_def rnd1_def applied_def new_hp_def
      by (simp add: strike_hit Let_def)
    then show "(\<exists>rest. fst (snd out) =
                   events @ ATTACK_RESOLVED (ent_id attacker) (ent_id tgt) True d b t (d = 20) (d = 1) 10
                     # DAMAGE_APPLIED (ent_id tgt) applied (ent_id attacker) new_hp # rest)
               \<and> entities (fst out) =
                   mutate_found (\<lambda>entity. ent_id entity = targetId)
                     (\<lambda>entity. entity\<lparr>hp := new_hp\<rparr>) (entities state)"
      by simp
  qed
  have ap: "applied =
     (if ent_type tgt = Player \<and> (\<exists>s \<in> set (statuses tgt). key s = ''defending'')
      then max 1 ((if d = 20 then (die + (if ent_type attacker = Player then 2 else 1)) * 2
                   else die + (if ent_type attacker = Player then 2 else 1)) div 2)
      else (if d = 20 then (die + (if ent_type attacker = Player then 2 else 1)) * 2
            else die + (if ent_type attacker = Player then 2 else 1)))"
    unfolding applied_def attack_damage_eq attack_baseDamage_eq die_def faces_def by simp
  have nh: "new_hp = (case (hp tgt, hp_max tgt) of
                         (Num h, Num m) \<Rightarrow> Num (max 0 (min m (h - applied)))
                       | _ \<Rightarrow> NaN)"
    by (cases "hp tgt"; cases "hp_max tgt") (simp_all add: new_hp_def clamp_def)
  show ?thesis
    unfolding Let_def d_def [symmetric] rnd1_def [symmetric] b_def [symmetric] t_def [symmetric]
      faces_def [symmetric] die_def [symmetric] out_def [symmetric]
      ap [symmetric] nh [symmetric]
    using hit range by simp
qed

lemma demo_d20: "attack_d20 None demo_rolls = (15, \<lambda>n. demo_rolls (Suc n))"
  by (simp add: attack_d20_def rollDie_def demo_rolls_def)

lemma demo_die: "fst (rollDie 6 (\<lambda>n. demo_rolls (Suc n))) = 4"
  by (simp add: rollDie_def demo_rolls_def)

theorem resolveAttack_damage_witness:
  "target demo_enemy_attack = Some ''player'' \<and> ''player'' \<noteq> []
   \<and> find (\<lambda>entity. ent_id entity = actor demo_enemy_attack) (entities demo_defending_state) = Some demo_enemy
   \<and> find (\<lambda>entity. ent_id entity = ''player'') (entities demo_defending_state) = Some demo_defender
   \<and> (\<exists>rest. fst (snd (resolveAttack demo_defending_state demo_enemy_attack [] None demo_rolls)) =
         ATTACK_RESOLVED ''enemy-0'' ''player'' True 15 0 15 False False 10
           # DAMAGE_APPLIED ''player'' (max 1 (5 div 2)) ''enemy-0'' (Num 18) # rest)
   \<and> max 1 ((5::int) div 2) = 2"
proof -
  have h1: "target demo_enemy_attack = Some ''player''" by (simp add: demo_enemy_attack_def)
  have h2: "''player'' \<noteq> []" by simp
  have h3: "find (\<lambda>entity. ent_id entity = actor demo_enemy_attack) (entities demo_defending_state) = Some demo_enemy"
    by (simp add: demo_defending_state_def demo_enemy_attack_def demo_defender_def demo_player_def demo_enemy_def)
  have h4: "find (\<lambda>entity. ent_id entity = ''player'') (entities demo_defending_state) = Some demo_defender"
    by (simp add: demo_defending_state_def demo_defender_def demo_player_def)
  have c: "\<exists>rest. fst (snd (resolveAttack demo_defending_state demo_enemy_attack [] None demo_rolls)) =
         ATTACK_RESOLVED ''enemy-0'' ''player'' True 15 0 15 False False 10
           # DAMAGE_APPLIED ''player'' (max 1 (5 div 2)) ''enemy-0'' (Num 18) # rest"
    using resolveAttack_damage [OF h1 h2 h3 h4, of None demo_rolls "[]"]
    by (simp add: Let_def demo_d20 demo_die attack_bonus_def attack_total_def
        demo_enemy_def demo_defender_def demo_player_def)
  show ?thesis using h1 h2 h3 h4 c by simp
qed

lemma enemyAttack_hp_ok:
  assumes "\<forall>e \<in> set (entities (fst acc)). hp_ok e"
  shows "\<forall>e \<in> set (entities (fst (enemyAttack pid acc enemy))). hp_ok e"
  unfolding enemyAttack_def using resolveAttack_hp_ok [OF assms] by simp

lemma foldl_enemyAttack_hp_ok:
  "\<forall>e \<in> set (entities (fst acc)). hp_ok e
   \<Longrightarrow> \<forall>e \<in> set (entities (fst (foldl (enemyAttack pid) acc enemies))). hp_ok e"
proof (induction enemies arbitrary: acc)
  case Nil
  then show ?case by simp
next
  case (Cons x xs)
  have "\<forall>e \<in> set (entities (fst (enemyAttack pid acc x))). hp_ok e"
    using Cons.prems by (rule enemyAttack_hp_ok)
  then show ?case using Cons.IH by simp
qed

lemma resolveEnemyTurn_hp_ok:
  assumes "\<forall>e \<in> set (entities state). hp_ok e"
  shows "\<forall>e \<in> set (entities (fst (resolveEnemyTurn state events rnd))). hp_ok e"
proof (cases "find (\<lambda>entity. ent_type entity = Player) (entities state)")
  case None
  then show ?thesis using assms by (simp add: resolveEnemyTurn_def)
next
  case (Some p)
  have "\<forall>e \<in> set (entities (fst (foldl (enemyAttack (ent_id p)) (state, events, rnd)
            (filter (\<lambda>entity. ent_type entity = Enemy \<and> js_gt (hp entity) (Num 0)) (entities state))))). hp_ok e"
    by (rule foldl_enemyAttack_hp_ok) (use assms in simp)
  then show ?thesis using Some by (simp add: resolveEnemyTurn_def Let_def)
qed

lemma clearExpiredStatuses_events:
  "snd (clearExpiredStatuses entity events) = events @ snd (clearExpiredStatuses entity [])"
  by (simp add: clearExpiredStatuses_def Let_def)

lemma clearExpiredStatuses_entity:
  "fst (clearExpiredStatuses entity events) = fst (clearExpiredStatuses entity [])"
  by (simp add: clearExpiredStatuses_def Let_def)

lemma clear_fold:
  "foldl (\<lambda>acc entity.
            (fst acc @ [fst (clearExpiredStatuses entity (snd acc))],
             snd (clearExpiredStatuses entity (snd acc))))
         (pre, evs) xs
   = (pre @ map (\<lambda>e. fst (clearExpiredStatuses e [])) xs,
      evs @ concat (map (\<lambda>e. snd (clearExpiredStatuses e [])) xs))"
proof (induction xs arbitrary: pre evs)
  case Nil
  then show ?case by simp
next
  case (Cons x xs)
  show ?case
    by (simp add: Cons.IH clearExpiredStatuses_events [of x evs] clearExpiredStatuses_entity [of x evs])
qed

lemma clearAllStatuses_eq:
  "clearAllStatuses state events =
     (state\<lparr>entities := map (\<lambda>e. fst (clearExpiredStatuses e [])) (entities state)\<rparr>,
      events @ concat (map (\<lambda>e. snd (clearExpiredStatuses e [])) (entities state)))"
  by (simp add: clearAllStatuses_def clear_fold Let_def)

lemma clearExpired_hp_ok: "hp_ok (fst (clearExpiredStatuses e evs)) = hp_ok e"
  by (simp add: clearExpiredStatuses_def Let_def hp_ok_def)

lemma clearAllStatuses_hp_ok:
  assumes "\<forall>e \<in> set (entities state). hp_ok e"
  shows "\<forall>e \<in> set (entities (fst (clearAllStatuses state events))). hp_ok e"
  using assms by (simp add: clearAllStatuses_eq clearExpired_hp_ok)

lemma checkCombatEnd_entities: "entities (fst (checkCombatEnd state events)) = entities state"
  by (simp add: checkCombatEnd_def Let_def)

lemma appendLog_entities: "entities (appendLog state events) = entities state"
  by (simp add: appendLog_def Let_def)

lemma applySnapshot_hp_ok:
  assumes "hp_ok p" and "snap_hp snap \<noteq> Some NaN"
  shows "hp_ok (applySnapshot snap p)"
proof -
  obtain h m where hm: "hp p = Num h" "hp_max p = Num m" "0 \<le> h" "h \<le> m"
    using assms(1) unfolding hp_ok_Num by blast
  have m: "js_le (Num 0) (hp_max p)" using hm by simp
  show ?thesis using assms clamp_range [OF m]
    by (auto simp: applySnapshot_def hp_ok_def Let_def split: option.splits)
qed

lemma mutate_found_all:
  "\<forall>x \<in> set xs. Q x \<Longrightarrow> (\<And>x. Q x \<Longrightarrow> Q (f x)) \<Longrightarrow> \<forall>x \<in> set (mutate_found P f xs). Q x"
  by (induction xs) auto

lemma resolveDefend_hp_ok:
  assumes "\<forall>e \<in> set (entities state). hp_ok e"
  shows "\<forall>e \<in> set (entities (fst (resolveDefend state intent events))). hp_ok e"
proof -
  have "\<forall>e \<in> set (mutate_found (\<lambda>entity. ent_id entity = actor intent)
                         (\<lambda>entity. entity\<lparr>statuses :=
                            statuses entity @ [\<lparr>key = ''defending'', duration = 1\<rparr>]\<rparr>)
                         (entities state)). hp_ok e"
    by (rule mutate_found_all [OF assms]) (simp add: hp_ok_def)
  then show ?thesis using assms
    by (simp add: resolveDefend_def Let_def split: option.splits)
qed

lemma dispatchAction_hp_ok:
  assumes "\<forall>e \<in> set (entities state). hp_ok e"
  shows "\<forall>e \<in> set (entities (fst (dispatchAction state intent events ro rnd))). hp_ok e"
proof (cases "action intent")
  case Attack
  then show ?thesis using resolveAttack_hp_ok [OF assms] by (simp add: dispatchAction_def)
next
  case Defend
  then show ?thesis using resolveDefend_hp_ok [OF assms] by (simp add: dispatchAction_def)
next
  case Move
  then show ?thesis using assms by (simp add: dispatchAction_def)
next
  case Item
  then show ?thesis using assms by (simp add: dispatchAction_def)
next
  case Spell
  then show ?thesis using assms by (simp add: dispatchAction_def)
next
  case Attempt
  then show ?thesis using assms by (simp add: dispatchAction_def resolveAttempt_def)
qed

lemma continueCombat_hp_ok:
  assumes "\<forall>e \<in> set (entities state). hp_ok e"
  shows "\<forall>e \<in> set (entities (fst (continueCombat state events rnd))). hp_ok e"
proof -
  have a: "\<forall>e \<in> set (entities (state\<lparr>phase := Enemy_turn\<rparr>)). hp_ok e" using assms by simp
  have b: "\<forall>e \<in> set (entities (fst (resolveEnemyTurn (state\<lparr>phase := Enemy_turn\<rparr>) events rnd))). hp_ok e"
    by (rule resolveEnemyTurn_hp_ok [OF a])
  define sd where "sd = (fst (resolveEnemyTurn (state\<lparr>phase := Enemy_turn\<rparr>) events rnd))
        \<lparr>round_no := round_no (fst (resolveEnemyTurn (state\<lparr>phase := Enemy_turn\<rparr>) events rnd)) + 1,
         phase := Player_turn\<rparr>"
  have c: "\<forall>e \<in> set (entities sd). hp_ok e" using b by (simp add: sd_def)
  have d: "\<forall>e \<in> set (entities (fst (clearAllStatuses sd
              (fst (snd (resolveEnemyTurn (state\<lparr>phase := Enemy_turn\<rparr>) events rnd)))))). hp_ok e"
    by (rule clearAllStatuses_hp_ok [OF c])
  show ?thesis using d by (simp add: continueCombat_def Let_def checkCombatEnd_entities sd_def)
qed

text \<open>
  The invariant \<open>0 \<le> hp \<le> hp_max\<close> is kept by every call whose player snapshot does
  not carry \<open>NaN\<close> as \<open>hp\<close>: the damage of every attack assigns
  \<open>clamp(hp - damage, 0, hp_max)\<close> with an integer damage, the snapshot assigns
  \<open>clamp(snapshot.hp, 0, hp_max)\<close>, and nothing else writes hit points.
\<close>

lemma resolveAction_hp_kept:
  assumes "battles campaignId = Some st"
    and "\<forall>e \<in> set (entities st). hp_ok e"
    and "Option.bind playerSnapshot snap_hp \<noteq> Some NaN"
  shows "\<exists>battles' state' events rnd'.
           resolveAction battles campaignId intent playerSnapshot rollOverrides rnd =
             Inr (battles', state', events, rnd')
         \<and> battles' campaignId = Some state'
         \<and> (\<forall>e \<in> set (entities state'). hp_ok e)"
proof -
  define state0 where "state0 = applyPlayerSnapshot playerSnapshot st"
  define acted where "acted = dispatchAction state0 intent [TURN_START (actor intent)] rollOverrides rnd"
  define checked where "checked = checkCombatEnd (fst acted) (fst (snd acted))"
  define result where "result =
                (if \<not> snd (snd checked)
                 then continueCombat (fst checked) (fst (snd checked)) (snd (snd acted))
                 else (fst checked, fst (snd checked), snd (snd acted)))"
  have inv: "\<forall>e \<in> set (entities st). hp_ok e" using assms(2) .
  have i0: "\<forall>e \<in> set (entities state0). hp_ok e"
  proof (cases playerSnapshot)
    case None
    then show ?thesis using inv by (simp add: state0_def applyPlayerSnapshot_def)
  next
    case (Some snap)
    have n: "snap_hp snap \<noteq> Some NaN" using assms(3) Some by simp
    have "\<forall>e \<in> set (mutate_found (\<lambda>entity. ent_type entity = Player) (applySnapshot snap)
                         (entities st)). hp_ok e"
      by (rule mutate_found_all [OF inv]) (rule applySnapshot_hp_ok [OF _ n])
    then show ?thesis using Some by (simp add: state0_def applyPlayerSnapshot_def)
  qed
  have i1: "\<forall>e \<in> set (entities (fst acted)). hp_ok e"
    unfolding acted_def by (rule dispatchAction_hp_ok [OF i0])
  have i2: "\<forall>e \<in> set (entities (fst checked)). hp_ok e"
    using i1 by (simp add: checked_def checkCombatEnd_entities)
  have i3: "\<forall>e \<in> set (entities (fst result)). hp_ok e"
  proof (cases "snd (snd checked)")
    case True
    then show ?thesis using i2 by (simp add: result_def)
  next
    case False
    then show ?thesis using continueCombat_hp_ok [OF i2] by (simp add: result_def)
  qed
  have r: "resolveAction battles campaignId intent playerSnapshot rollOverrides rnd =
      Inr (battles(campaignId \<mapsto> appendLog (fst result) (fst (snd result))),
           appendLog (fst result) (fst (snd result)), fst (snd result), snd (snd result))"
    unfolding resolveAction_def Let_def result_def checked_def acted_def state0_def
    using assms(1) by simp
  have "\<forall>e \<in> set (entities (appendLog (fst result) (fst (snd result)))). hp_ok e"
    using i3 by (simp add: appendLog_entities)
  then show ?thesis using r by simp
qed

lemma strike_frame:
  "fst (strike state targetId attacker tgt events attackRoll rnd) =
     state\<lparr>entities := entities (fst (strike state targetId attacker tgt events attackRoll rnd))\<rparr>"
proof (cases "attack_hit (fst (attack_d20 attackRoll rnd))
             (attack_total attackRoll (fst (attack_d20 attackRoll rnd))
                (attack_bonus attackRoll (fst (attack_d20 attackRoll rnd))))")
  case True
  show ?thesis unfolding strike_hit [OF True] Let_def by simp
next
  case False
  show ?thesis unfolding strike_miss [OF False] Let_def by simp
qed


lemma resolveAttack_cases:
  "resolveAttack state intent events attackRoll rnd = (state, events, rnd)
   \<or> (\<exists>tid attacker tgt. resolveAttack state intent events attackRoll rnd =
          strike state tid attacker tgt events attackRoll rnd)"
  by (auto simp: resolveAttack_def split: option.splits)

lemma resolveAttack_frame:
  "fst (resolveAttack state intent events attackRoll rnd) =
     state\<lparr>entities := entities (fst (resolveAttack state intent events attackRoll rnd))\<rparr>"
  using resolveAttack_cases [of state intent events attackRoll rnd] strike_frame
  by (metis (no_types, lifting) CombatState.surjective CombatState.update_convs(6) fst_conv)


lemma enemyAttack_frame:
  "fst (enemyAttack pid acc enemy) = (fst acc)\<lparr>entities := entities (fst (enemyAttack pid acc enemy))\<rparr>"
  unfolding enemyAttack_def by (rule resolveAttack_frame)

lemma foldl_enemyAttack_frame:
  "fst (foldl (enemyAttack pid) acc enemies) =
     (fst acc)\<lparr>entities := entities (fst (foldl (enemyAttack pid) acc enemies))\<rparr>"
proof (induction enemies arbitrary: acc)
  case Nil
  then show ?case by simp
next
  case (Cons x xs)
  have "fst (foldl (enemyAttack pid) (enemyAttack pid acc x) xs) =
     (fst (enemyAttack pid acc x))\<lparr>entities := entities (fst (foldl (enemyAttack pid) (enemyAttack pid acc x) xs))\<rparr>"
    by (rule Cons.IH)
  also have "\<dots> = (fst acc)\<lparr>entities := entities (fst (foldl (enemyAttack pid) (enemyAttack pid acc x) xs))\<rparr>"
    by (subst enemyAttack_frame) simp
  finally show ?case by simp
qed







lemma checkCombatEnd_eq:
  "checkCombatEnd state events =
     (if (\<forall>p. find (\<lambda>entity. ent_type entity = Player) (entities state) = Some p
            \<longrightarrow> js_le (hp p) (Num 0))
      then (state\<lparr>phase := Ended\<rparr>, events @ [COMBAT_ENDED Defeat], True)
      else if \<not> (\<exists>e \<in> set (entities state). ent_type e = Enemy \<and> js_gt (hp e) (Num 0))
      then (state\<lparr>phase := Ended\<rparr>, events @ [COMBAT_ENDED Victory], True)
      else (state, events, False))"
  by (auto simp: checkCombatEnd_def Let_def list_ex_iff split: option.splits)

lemma clearExpired_statuses:
  "fst (clearExpiredStatuses e evs) =
     e\<lparr>statuses := map (\<lambda>s. s\<lparr>duration := duration s - 1\<rparr>)
                       (filter (\<lambda>s. 1 < duration s) (statuses e))\<rparr>"
  by (simp add: clearExpiredStatuses_def Let_def filter_map comp_def)

lemma clearExpired_removed:
  "snd (clearExpiredStatuses e []) =
     map (\<lambda>s. STATUS_REMOVED (ent_id e) (key s))
       (filter (\<lambda>s. \<forall>n \<in> set (statuses e). key n = key s \<longrightarrow> duration n \<le> 1) (statuses e))"
proof -
  have a: "\<And>s. (find (\<lambda>next. key next = key s)
              (filter (\<lambda>status. duration status > 0)
                 (map (\<lambda>status. status\<lparr>duration := duration status - 1\<rparr>) (statuses e))) = None)
           = (\<forall>n \<in> set (statuses e). key n = key s \<longrightarrow> duration n \<le> 1)"
    by (auto simp: find_None_iff)
  show ?thesis by (simp add: clearExpiredStatuses_def Let_def a)
qed

lemma resolveDefend_frame:
  "fst (resolveDefend state intent events) =
     state\<lparr>entities := entities (fst (resolveDefend state intent events))\<rparr>"
  by (simp add: resolveDefend_def Let_def split: option.splits)


lemma dispatchAction_frame:
  "fst (dispatchAction state intent events ro rnd) =
     state\<lparr>entities := entities (fst (dispatchAction state intent events ro rnd))\<rparr>"
proof (cases "action intent")
  case Attack
  then show ?thesis using resolveAttack_frame by (simp add: dispatchAction_def)
next
  case Defend
  then show ?thesis using resolveDefend_frame by (simp add: dispatchAction_def)
qed (simp_all add: dispatchAction_def resolveAttempt_def)


lemma resolveEnemyTurn_found:
  assumes "find (\<lambda>entity. ent_type entity = Player) (entities state) = Some pl"
  shows "resolveEnemyTurn state events rnd =
     (fst (foldl (enemyAttack (ent_id pl)) (state, events, rnd) (living_enemies state)),
      fst (snd (foldl (enemyAttack (ent_id pl)) (state, events, rnd) (living_enemies state)))
        @ [TURN_START (ent_id pl)],
      snd (snd (foldl (enemyAttack (ent_id pl)) (state, events, rnd) (living_enemies state))))"
  using assms by (simp add: resolveEnemyTurn_def Let_def living_enemies_def)

lemma clearAllStatuses_decay:
  "clearAllStatuses state events =
     (state\<lparr>entities := map decayed (entities state)\<rparr>,
      events @ concat (map removal_events (entities state)))"
proof -
  have a: "(\<lambda>e. fst (clearExpiredStatuses e [])) = decayed"
    by (rule ext) (simp add: clearExpired_statuses decayed_def)
  have b: "(\<lambda>e. snd (clearExpiredStatuses e [])) = removal_events"
    by (rule ext) (simp add: clearExpired_removed removal_events_def)
  show ?thesis by (simp add: clearAllStatuses_eq a b)
qed




lemma end_events_cong: "entities a = entities b \<Longrightarrow> end_events a = end_events b"
  by (simp add: end_events_def)

lemma resolveAction_found:
  assumes "battles campaignId = Some st"
  shows "resolveAction battles campaignId intent playerSnapshot rollOverrides rnd =
     (let state0 = applyPlayerSnapshot playerSnapshot st;
          acted = dispatchAction state0 intent [TURN_START (actor intent)] rollOverrides rnd;
          checked = checkCombatEnd (fst acted) (fst (snd acted));
          result =
                (if \<not> snd (snd checked)
                 then continueCombat (fst checked) (fst (snd checked)) (snd (snd acted))
                 else (fst checked, fst (snd checked), snd (snd acted)));
          state4 = appendLog (fst result) (fst (snd result))
      in Inr (battles(campaignId \<mapsto> state4), state4, fst (snd result), snd (snd result)))"
  using assms by (simp add: resolveAction_def)

lemma applyPlayerSnapshot_round: "round_no (applyPlayerSnapshot playerSnapshot st) = round_no st"
  by (simp add: applyPlayerSnapshot_def split: option.splits)






lemma rollDie_rest: "snd (rollDie faces rnd) = (\<lambda>n. rnd (Suc n))"
  by (simp add: rollDie_def)

text \<open>
  Claim C9 (the code at the failing input). The enemy hits the player, who has 3 hit
  points, for 5: the player's hit points become 0 and \<open>resolveAttack\<close> pushes
  \<open>ENEMY_DEFEATED\<close> with the player as target, although the target is not an enemy.
\<close>

theorem resolveAttack_defeated_event_on_player:
  "resolveAttack demo_wounded_state demo_enemy_attack [] None demo_rolls =
     (demo_wounded_state\<lparr>entities := [demo_player\<lparr>hp := Num 0\<rparr>, demo_enemy]\<rparr>,
      [ATTACK_RESOLVED ''enemy-0'' ''player'' True 15 0 15 False False 10,
       DAMAGE_APPLIED ''player'' 5 ''enemy-0'' (Num 0),
       ENEMY_DEFEATED ''player''],
      \<lambda>n. demo_rolls (Suc (Suc n)))"
proof -
  have h1: "target demo_enemy_attack = Some ''player''" by (simp add: demo_enemy_attack_def)
  have h2: "''player'' \<noteq> []" by simp
  have h3: "find (\<lambda>entity. ent_id entity = actor demo_enemy_attack) (entities demo_wounded_state) = Some demo_enemy"
    by (simp add: demo_wounded_state_def demo_enemy_attack_def demo_player_def demo_enemy_def)
  have h4: "find (\<lambda>entity. ent_id entity = ''player'') (entities demo_wounded_state) = Some (demo_player\<lparr>hp := Num 3\<rparr>)"
    by (simp add: demo_wounded_state_def demo_player_def)
  have hit: "attack_hit (fst (attack_d20 None demo_rolls))
             (attack_total None (fst (attack_d20 None demo_rolls))
                (attack_bonus None (fst (attack_d20 None demo_rolls))))"
    by (simp add: demo_d20 attack_hit_def attack_total_def attack_bonus_def)
  show ?thesis
    unfolding resolveAttack_found [OF h1 h2 h3 h4] strike_hit [OF hit]
    by (simp add: Let_def demo_d20 attack_total_def attack_bonus_def attack_baseDamage_def
        attack_damage_def demo_die demo_enemy_def demo_player_def clamp_def demo_wounded_state_def
        rollDie_rest)
qed





subsection \<open>The turn cycle\<close>

lemma strike_events:
  "strike state targetId attacker tgt events attackRoll rnd =
     (fst (strike state targetId attacker tgt [] attackRoll rnd),
      events @ fst (snd (strike state targetId attacker tgt [] attackRoll rnd)),
      snd (snd (strike state targetId attacker tgt [] attackRoll rnd)))"
proof (cases "attack_hit (fst (attack_d20 attackRoll rnd))
             (attack_total attackRoll (fst (attack_d20 attackRoll rnd))
                (attack_bonus attackRoll (fst (attack_d20 attackRoll rnd))))")
  case True
  show ?thesis unfolding strike_hit [OF True] Let_def by simp
next
  case False
  show ?thesis unfolding strike_miss [OF False] Let_def by simp
qed

lemma resolveAttack_events:
  "resolveAttack state intent events attackRoll rnd =
     (fst (resolveAttack state intent [] attackRoll rnd),
      events @ fst (snd (resolveAttack state intent [] attackRoll rnd)),
      snd (snd (resolveAttack state intent [] attackRoll rnd)))"
  by (auto simp: resolveAttack_def split: option.splits intro: strike_events)

lemma mutate_found_same:
  "find P xs = Some x \<Longrightarrow> f x = g x \<Longrightarrow> mutate_found P f xs = mutate_found P g xs"
  by (induction xs) (auto split: if_splits)

lemma mutate_found_fixed:
  "find P xs = Some x \<Longrightarrow> f x = x \<Longrightarrow> mutate_found P f xs = xs"
  by (induction xs) (auto split: if_splits)

lemma find_id_None: "(find (\<lambda>entity. ent_id entity = i) xs = None) = (i \<notin> ent_id ` set xs)"
  by (auto simp: find_None_iff)

lemma find_key_None: "(find (\<lambda>status. key status = k) xs = None) = (k \<notin> key ` set xs)"
  by (auto simp: find_None_iff)

lemma resolveDefend_player_action:
  "resolveDefend state intent events =
     (if actor intent \<in> ent_id ` set (entities state)
      then (state\<lparr>entities :=
                   mutate_found (\<lambda>entity. ent_id entity = actor intent)
                     (\<lambda>entity. if ''defending'' \<in> key ` set (statuses entity) then entity
                        else entity\<lparr>statuses :=
                               statuses entity @ [\<lparr>key = ''defending'', duration = 1\<rparr>]\<rparr>)
                     (entities state)\<rparr>,
            events @ [STATUS_APPLIED (actor intent) ''defending'' ''turn''])
      else (state, events))"
proof (cases "find (\<lambda>entity. ent_id entity = actor intent) (entities state)")
  case None
  then show ?thesis using find_id_None [of "actor intent" "entities state"]
    by (simp add: resolveDefend_def)
next
  case (Some a)
  have mem: "actor intent \<in> ent_id ` set (entities state)"
    using Some find_id_None [of "actor intent" "entities state"] by simp
  have ida: "ent_id a = actor intent" using Some find_in_set by fastforce
  show ?thesis
  proof (cases "find (\<lambda>status. key status = ''defending'') (statuses a)")
    case None
    then have k: "''defending'' \<notin> key ` set (statuses a)" by (simp add: find_key_None)
    have "mutate_found (\<lambda>entity. ent_id entity = actor intent)
                     (\<lambda>entity. if ''defending'' \<in> key ` set (statuses entity) then entity
                        else entity\<lparr>statuses :=
                               statuses entity @ [\<lparr>key = ''defending'', duration = 1\<rparr>]\<rparr>)
                     (entities state)
        = mutate_found (\<lambda>entity. ent_id entity = actor intent)
                         (\<lambda>entity. entity\<lparr>statuses :=
                            statuses entity @ [\<lparr>key = ''defending'', duration = 1\<rparr>]\<rparr>)
                         (entities state)"
      by (rule mutate_found_same [OF Some]) (use k in simp)
    then show ?thesis using Some None mem ida by (simp add: resolveDefend_def)
  next
    case (Some existing)
    then have k: "''defending'' \<in> key ` set (statuses a)"
      using find_key_None [of "''defending''" "statuses a"] by simp
    have "mutate_found (\<lambda>entity. ent_id entity = actor intent)
                     (\<lambda>entity. if ''defending'' \<in> key ` set (statuses entity) then entity
                        else entity\<lparr>statuses :=
                               statuses entity @ [\<lparr>key = ''defending'', duration = 1\<rparr>]\<rparr>)
                     (entities state)
        = entities state"
      by (rule mutate_found_fixed [OF \<open>find (\<lambda>entity. ent_id entity = actor intent) (entities state) = Some a\<close>])
        (use k in simp)
    then show ?thesis
      using Some \<open>find (\<lambda>entity. ent_id entity = actor intent) (entities state) = Some a\<close> mem ida
      by (simp add: resolveDefend_def)
  qed
qed

lemma dispatchAction_player_action:
  "dispatchAction state intent events ro rnd =
     (fst (player_action state intent ro rnd),
      events @ fst (snd (player_action state intent ro rnd)),
      snd (snd (player_action state intent ro rnd)))"
proof (cases "action intent")
  case Attack
  then show ?thesis
    using resolveAttack_events [of state intent events "Option.bind ro ro_attackRoll" rnd]
    by (simp add: dispatchAction_def player_action_def)
next
  case Defend
  then show ?thesis
    by (simp add: dispatchAction_def player_action_def resolveDefend_player_action)
next
  case Move
  then show ?thesis
    by (simp add: dispatchAction_def player_action_def split: option.splits)
next
  case Item
  then show ?thesis by (simp add: dispatchAction_def player_action_def)
next
  case Spell
  then show ?thesis by (simp add: dispatchAction_def player_action_def)
next
  case Attempt
  then show ?thesis
    by (simp add: dispatchAction_def player_action_def resolveAttempt_def split: option.splits)
qed

lemma foldl_enemy_turn:
  "foldl (enemyAttack pid) (state, events, rnd) enemies =
     (fst (enemy_turn pid enemies state rnd),
      events @ fst (snd (enemy_turn pid enemies state rnd)),
      snd (snd (enemy_turn pid enemies state rnd)))"
proof (induction enemies arbitrary: state events rnd)
  case Nil
  then show ?case by simp
next
  case (Cons e es)
  define a where "a = resolveAttack state
                     \<lparr>action = Attack, actor = ent_id e, target = Some pid,
                      params = None, free_text = None, risk = None\<rparr> [] None rnd"
  have st: "enemyAttack pid (state, events, rnd) e =
      (fst a, (events @ [TURN_START (ent_id e)]) @ fst (snd a), snd (snd a))"
    unfolding enemyAttack_def a_def
    using resolveAttack_events [of state _ "events @ [TURN_START (ent_id e)]" None rnd]
    by simp
  show ?case
    unfolding foldl_Cons st Cons.IH enemy_turn.simps Let_def a_def [symmetric]
    by simp
qed

lemma steps_append: "steps (xs @ ys) = steps xs @ steps ys"
  by (induction xs rule: steps.induct) auto

lemma strike_ids:
  "map ent_id (entities (fst (strike state targetId attacker tgt events attackRoll rnd))) =
     map ent_id (entities state)"
proof (cases "attack_hit (fst (attack_d20 attackRoll rnd))
             (attack_total attackRoll (fst (attack_d20 attackRoll rnd))
                (attack_bonus attackRoll (fst (attack_d20 attackRoll rnd))))")
  case True
  show ?thesis unfolding strike_hit [OF True] Let_def by (simp add: mutate_found_map)
next
  case False
  show ?thesis unfolding strike_miss [OF False] Let_def by simp
qed

lemma resolveAttack_ids:
  "map ent_id (entities (fst (resolveAttack state intent events attackRoll rnd))) =
     map ent_id (entities state)"
  using resolveAttack_cases [of state intent events attackRoll rnd] strike_ids
  by (metis fst_conv)

lemma steps_strike:
  "steps (fst (snd (strike state targetId attacker tgt [] attackRoll rnd))) =
     [Attacks (ent_id attacker) (ent_id tgt)]"
proof (cases "attack_hit (fst (attack_d20 attackRoll rnd))
             (attack_total attackRoll (fst (attack_d20 attackRoll rnd))
                (attack_bonus attackRoll (fst (attack_d20 attackRoll rnd))))")
  case True
  show ?thesis unfolding strike_hit [OF True] Let_def by simp
next
  case False
  show ?thesis unfolding strike_miss [OF False] Let_def by simp
qed

lemma find_id_Some:
  "i \<in> ent_id ` set xs \<Longrightarrow> \<exists>x. find (\<lambda>entity. ent_id entity = i) xs = Some x \<and> ent_id x = i"
  by (induction xs) auto

lemma steps_enemy_attack:
  assumes "pid \<noteq> []" and "ent_id e \<in> ent_id ` set (entities state)"
    and "pid \<in> ent_id ` set (entities state)"
  shows "steps (fst (snd (resolveAttack state
                     \<lparr>action = Attack, actor = ent_id e, target = Some pid,
                      params = None, free_text = None, risk = None\<rparr> [] None rnd)))
         = [Attacks (ent_id e) pid]"
proof -
  obtain attacker where a: "find (\<lambda>entity. ent_id entity = ent_id e) (entities state) = Some attacker"
    "ent_id attacker = ent_id e"
    using find_id_Some [OF assms(2)] by blast
  obtain tgt where t: "find (\<lambda>entity. ent_id entity = pid) (entities state) = Some tgt"
    "ent_id tgt = pid"
    using find_id_Some [OF assms(3)] by blast
  show ?thesis
    using a t assms(1) by (simp add: resolveAttack_def steps_strike)
qed

lemma steps_enemy_turn:
  assumes "pid \<in> ent_id ` set (entities state)"
    and "ent_id ` set enemies \<subseteq> ent_id ` set (entities state)"
  shows "steps (fst (snd (enemy_turn pid enemies state rnd))) =
           concat (map (\<lambda>e. Turn (ent_id e) # (if pid = [] then [] else [Attacks (ent_id e) pid]))
                     enemies)"
  using assms
proof (induction enemies arbitrary: state rnd)
  case Nil
  then show ?case by simp
next
  case (Cons e es)
  define a where "a = resolveAttack state
                     \<lparr>action = Attack, actor = ent_id e, target = Some pid,
                      params = None, free_text = None, risk = None\<rparr> [] None rnd"
  have ids: "ent_id ` set (entities (fst a)) = ent_id ` set (entities state)"
    unfolding a_def using resolveAttack_ids [of state _ "[]" None rnd] by (metis set_map)
  have sa: "steps (fst (snd a)) = (if pid = [] then [] else [Attacks (ent_id e) pid])"
  proof (cases "pid = []")
    case True
    then show ?thesis by (simp add: a_def resolveAttack_def)
  next
    case False
    have "ent_id e \<in> ent_id ` set (entities state)" using Cons.prems(2) by auto
    then show ?thesis unfolding a_def using steps_enemy_attack [OF False _ Cons.prems(1)] False
      by simp
  qed
  have ih: "steps (fst (snd (enemy_turn pid es (fst a) (snd (snd a))))) =
           concat (map (\<lambda>e. Turn (ent_id e) # (if pid = [] then [] else [Attacks (ent_id e) pid])) es)"
    by (rule Cons.IH) (use Cons.prems ids in auto)
  show ?case
    unfolding enemy_turn.simps Let_def a_def [symmetric]
    by (simp add: steps_append sa ih)
qed

lemma removal_events_distinct:
  assumes "distinct (map key (statuses e))"
  shows "removal_events e = expired_events e"
proof -
  have inj: "inj_on key (set (statuses e))" using assms by (simp add: distinct_map)
  have "filter (\<lambda>s. \<forall>n \<in> set (statuses e). key n = key s \<longrightarrow> duration n \<le> 1) (statuses e)
      = filter (\<lambda>s. duration s - 1 \<le> 0) (statuses e)"
  proof (rule filter_cong [OF refl])
    fix s assume s: "s \<in> set (statuses e)"
    show "(\<forall>n \<in> set (statuses e). key n = key s \<longrightarrow> duration n \<le> 1) = (duration s - 1 \<le> 0)"
      using s inj by (auto dest: inj_onD)
  qed
  then show ?thesis by (simp add: removal_events_def expired_events_def)
qed

lemma checkCombatEnd_ee:
  "checkCombatEnd state events =
     ((if end_events state = [] then state else state\<lparr>phase := Ended\<rparr>),
      events @ end_events state, end_events state \<noteq> [])"
  by (simp add: checkCombatEnd_eq end_events_def)

lemma enemy_turn_frame:
  "fst (enemy_turn pid enemies state rnd) =
     state\<lparr>entities := entities (fst (enemy_turn pid enemies state rnd))\<rparr>"
  using foldl_enemyAttack_frame [of pid "(state, [], rnd)" enemies]
  by (simp add: foldl_enemy_turn)

lemma continueCombat_cycle:
  assumes f: "find (\<lambda>entity. ent_type entity = Player) (entities state) = Some pl"
  shows "continueCombat state events rnd =
     (let turn = enemy_turn (ent_id pl) (living_enemies state) (state\<lparr>phase := Enemy_turn\<rparr>) rnd;
          s2 = fst turn;
          s3 = s2\<lparr>round_no := round_no state + 1, entities := map decayed (entities s2)\<rparr>
      in (s3\<lparr>phase := (if end_events s3 = [] then Player_turn else Ended)\<rparr>,
          events @ fst (snd turn) @ [TURN_START (ent_id pl)]
            @ concat (map removal_events (entities s2)) @ end_events s3,
          snd (snd turn)))"
proof -
  define sa where "sa = state\<lparr>phase := Enemy_turn\<rparr>"
  define turn where "turn = enemy_turn (ent_id pl) (living_enemies state) sa rnd"
  define s3 where "s3 = (fst turn)\<lparr>round_no := round_no state + 1,
                                   entities := map decayed (entities (fst turn))\<rparr>"
  have fa: "find (\<lambda>entity. ent_type entity = Player) (entities sa) = Some pl"
    using f by (simp add: sa_def)
  have le: "living_enemies sa = living_enemies state" by (simp add: sa_def living_enemies_def)
  have t: "resolveEnemyTurn sa events rnd =
      (fst turn, (events @ fst (snd turn)) @ [TURN_START (ent_id pl)], snd (snd turn))"
    unfolding resolveEnemyTurn_found [OF fa] le foldl_enemy_turn turn_def by simp
  have fr: "fst turn = sa\<lparr>entities := entities (fst turn)\<rparr>"
    unfolding turn_def by (rule enemy_turn_frame)
  have rn: "round_no (fst turn) = round_no state" by (subst fr) (simp add: sa_def)
  have cl: "clearAllStatuses ((fst turn)\<lparr>round_no := round_no (fst turn) + 1, phase := Player_turn\<rparr>) evs
      = (s3\<lparr>phase := Player_turn\<rparr>, evs @ concat (map removal_events (entities (fst turn))))" for evs
    by (simp add: clearAllStatuses_decay s3_def rn)
  have ee: "end_events (s3\<lparr>phase := Player_turn\<rparr>) = end_events s3"
    by (rule end_events_cong) simp
  have "continueCombat state events rnd =
      (s3\<lparr>phase := (if end_events s3 = [] then Player_turn else Ended)\<rparr>,
          events @ fst (snd turn) @ [TURN_START (ent_id pl)]
            @ concat (map removal_events (entities (fst turn))) @ end_events s3,
          snd (snd turn))"
    unfolding continueCombat_def Let_def sa_def [symmetric] t fst_conv snd_conv cl
      checkCombatEnd_ee ee
    by simp
  then show ?thesis unfolding Let_def turn_def s3_def sa_def by simp
qed

lemma dispatchAction_round:
  "round_no (fst (dispatchAction state intent events ro rnd)) = round_no state"
  by (subst dispatchAction_frame) simp

lemma living_enemies_subset: "set (living_enemies state) \<subseteq> set (entities state)"
  by (auto simp: living_enemies_def)

lemma resolveAction_cycle:
  assumes "battles campaignId = Some st"
    and "end_events (fst (player_action (applyPlayerSnapshot playerSnapshot st) intent
                            rollOverrides rnd)) = []"
    and "find (\<lambda>entity. ent_type entity = Player)
           (entities (fst (player_action (applyPlayerSnapshot playerSnapshot st) intent
                             rollOverrides rnd))) = Some pl"
  shows "let acted = player_action (applyPlayerSnapshot playerSnapshot st) intent rollOverrides rnd;
             s1 = fst acted;
             turn = enemy_turn (ent_id pl) (living_enemies s1) (s1\<lparr>phase := Enemy_turn\<rparr>)
                      (snd (snd acted));
             s2 = fst turn;
             s3 = s2\<lparr>round_no := round_no st + 1, entities := map decayed (entities s2)\<rparr>;
             events = TURN_START (actor intent) # fst (snd acted) @ fst (snd turn)
                        @ [TURN_START (ent_id pl)]
                        @ concat (map removal_events (entities s2)) @ end_events s3;
             final = appendLog (s3\<lparr>phase := (if end_events s3 = [] then Player_turn else Ended)\<rparr>)
                       events
         in resolveAction battles campaignId intent playerSnapshot rollOverrides rnd =
              Inr (battles(campaignId \<mapsto> final), final, events, snd (snd turn))
          \<and> steps (fst (snd turn)) =
              concat (map (\<lambda>e. Turn (ent_id e)
                                 # (if ent_id pl = [] then [] else [Attacks (ent_id e) (ent_id pl)]))
                        (living_enemies s1))
          \<and> ((\<forall>e \<in> set (entities s2). distinct (map key (statuses e)))
               \<longrightarrow> concat (map removal_events (entities s2)) = concat (map expired_events (entities s2)))"
proof -
  define acted where "acted = player_action (applyPlayerSnapshot playerSnapshot st) intent rollOverrides rnd"
  define s1 where "s1 = fst acted"
  define turn where "turn = enemy_turn (ent_id pl) (living_enemies s1) (s1\<lparr>phase := Enemy_turn\<rparr>)
                      (snd (snd acted))"
  define s3 where "s3 = (fst turn)\<lparr>round_no := round_no st + 1,
                                   entities := map decayed (entities (fst turn))\<rparr>"
  define events where "events = TURN_START (actor intent) # fst (snd acted) @ fst (snd turn)
                        @ [TURN_START (ent_id pl)]
                        @ concat (map removal_events (entities (fst turn))) @ end_events s3"
  have ne: "end_events s1 = []" using assms(2) by (simp add: s1_def acted_def)
  have pl: "find (\<lambda>entity. ent_type entity = Player) (entities s1) = Some pl"
    using assms(3) by (simp add: s1_def acted_def)
  have d: "dispatchAction (applyPlayerSnapshot playerSnapshot st) intent
             [TURN_START (actor intent)] rollOverrides rnd
           = (s1, [TURN_START (actor intent)] @ fst (snd acted), snd (snd acted))"
    unfolding s1_def acted_def by (rule dispatchAction_player_action)
  have r0: "round_no s1 = round_no st"
    using dispatchAction_round [of "applyPlayerSnapshot playerSnapshot st" intent
        "[TURN_START (actor intent)]" rollOverrides rnd]
    unfolding d by (simp add: applyPlayerSnapshot_round)
  have ck: "checkCombatEnd s1 evs = (s1, evs, False)" for evs
    using ne by (simp add: checkCombatEnd_ee)
  have cc: "continueCombat s1 ([TURN_START (actor intent)] @ fst (snd acted)) (snd (snd acted)) =
      (s3\<lparr>phase := (if end_events s3 = [] then Player_turn else Ended)\<rparr>, events, snd (snd turn))"
    unfolding continueCombat_cycle [OF pl] Let_def turn_def [symmetric] r0 s3_def [symmetric]
      events_def
    by simp
  have res: "resolveAction battles campaignId intent playerSnapshot rollOverrides rnd =
      Inr (battles(campaignId \<mapsto>
             appendLog (s3\<lparr>phase := (if end_events s3 = [] then Player_turn else Ended)\<rparr>) events),
           appendLog (s3\<lparr>phase := (if end_events s3 = [] then Player_turn else Ended)\<rparr>) events,
           events, snd (snd turn))"
    unfolding resolveAction_found [of battles campaignId st, OF assms(1)] Let_def d fst_conv snd_conv
      ck cc
    by simp
  have pin: "ent_id pl \<in> ent_id ` set (entities (s1\<lparr>phase := Enemy_turn\<rparr>))"
    using pl find_in_set by fastforce
  have sub: "ent_id ` set (living_enemies s1) \<subseteq> ent_id ` set (entities (s1\<lparr>phase := Enemy_turn\<rparr>))"
    using living_enemies_subset [of s1] by auto
  have st: "steps (fst (snd turn)) =
              concat (map (\<lambda>e. Turn (ent_id e)
                                 # (if ent_id pl = [] then [] else [Attacks (ent_id e) (ent_id pl)]))
                        (living_enemies s1))"
    unfolding turn_def by (rule steps_enemy_turn [OF pin sub])
  have rm: "(\<forall>e \<in> set (entities (fst turn)). distinct (map key (statuses e)))
               \<longrightarrow> concat (map removal_events (entities (fst turn)))
                   = concat (map expired_events (entities (fst turn)))"
  proof
    assume a: "\<forall>e \<in> set (entities (fst turn)). distinct (map key (statuses e))"
    have "map removal_events (entities (fst turn)) = map expired_events (entities (fst turn))"
      by (rule map_cong [OF refl]) (use a removal_events_distinct in blast)
    then show "concat (map removal_events (entities (fst turn)))
                   = concat (map expired_events (entities (fst turn)))"
      by (rule arg_cong [of _ _ concat])
  qed
  show ?thesis
    unfolding Let_def acted_def [symmetric] s1_def [symmetric] turn_def [symmetric]
      s3_def [symmetric] events_def [symmetric]
    using res st rm by (intro conjI)
qed

lemma demo_enemy_hits:
  assumes "entities s = [p, demo_enemy]" and "ent_id p = ''player''"
  shows "resolveAttack s
           \<lparr>action = Attack, actor = ''enemy-0'', target = Some ''player'',
            params = None, free_text = None, risk = None\<rparr> [] None demo_rolls
         = (s\<lparr>entities := [p\<lparr>hp := clamp (js_minus (hp p) (Num (attack_damage p False 5))) (Num 0) (hp_max p)\<rparr>,
                             demo_enemy]\<rparr>,
            ATTACK_RESOLVED ''enemy-0'' ''player'' True 15 0 15 False False 10
              # DAMAGE_APPLIED ''player'' (attack_damage p False 5) ''enemy-0''
                  (clamp (js_minus (hp p) (Num (attack_damage p False 5))) (Num 0) (hp_max p))
              # (if clamp (js_minus (hp p) (Num (attack_damage p False 5))) (Num 0) (hp_max p) = Num 0
                 then [ENEMY_DEFEATED ''player''] else []),
            \<lambda>n. demo_rolls (Suc (Suc n)))"
proof -
  have h1: "target \<lparr>action = Attack, actor = ''enemy-0'', target = Some ''player'',
            params = None, free_text = None, risk = None\<rparr> = Some ''player''" by simp
  have h2: "''player'' \<noteq> []" by simp
  have h3: "find (\<lambda>entity. ent_id entity = actor \<lparr>action = Attack, actor = ''enemy-0'', target = Some ''player'',
            params = None, free_text = None, risk = None\<rparr>) (entities s) = Some demo_enemy"
    using assms by (simp add: demo_enemy_def)
  have h4: "find (\<lambda>entity. ent_id entity = ''player'') (entities s) = Some p"
    using assms by simp
  have hit: "attack_hit (fst (attack_d20 None demo_rolls))
             (attack_total None (fst (attack_d20 None demo_rolls))
                (attack_bonus None (fst (attack_d20 None demo_rolls))))"
    by (simp add: demo_d20 attack_hit_def attack_total_def attack_bonus_def)
  have bd: "fst (attack_baseDamage demo_enemy (\<lambda>n. demo_rolls (Suc n))) = 5"
    by (simp add: attack_baseDamage_def demo_die demo_enemy_def)
  have br: "snd (attack_baseDamage demo_enemy (\<lambda>n. demo_rolls (Suc n))) = (\<lambda>n. demo_rolls (Suc (Suc n)))"
    by (simp add: attack_baseDamage_def rollDie_rest demo_enemy_def)
  have e: "ent_id demo_enemy = ''enemy-0''" by (simp add: demo_enemy_def)
  show ?thesis
    unfolding resolveAttack_found [OF h1 h2 h3 h4] strike_hit [OF hit]
    using assms
    by (simp add: Let_def demo_d20 attack_total_def attack_bonus_def bd br e)
qed

lemma demo_enemy_turn:
  assumes "entities s = [p, demo_enemy]" and "ent_id p = ''player''"
  shows "enemy_turn ''player'' [demo_enemy] s demo_rolls
         = (s\<lparr>entities := [p\<lparr>hp := clamp (js_minus (hp p) (Num (attack_damage p False 5))) (Num 0) (hp_max p)\<rparr>,
                             demo_enemy]\<rparr>,
            TURN_START ''enemy-0''
              # ATTACK_RESOLVED ''enemy-0'' ''player'' True 15 0 15 False False 10
              # DAMAGE_APPLIED ''player'' (attack_damage p False 5) ''enemy-0''
                  (clamp (js_minus (hp p) (Num (attack_damage p False 5))) (Num 0) (hp_max p))
              # (if clamp (js_minus (hp p) (Num (attack_damage p False 5))) (Num 0) (hp_max p) = Num 0
                 then [ENEMY_DEFEATED ''player''] else []),
            \<lambda>n. demo_rolls (Suc (Suc n)))"
proof -
  have e: "ent_id demo_enemy = ''enemy-0''" by (simp add: demo_enemy_def)
  show ?thesis
    unfolding enemy_turn.simps Let_def e demo_enemy_hits [OF assms] by simp
qed

lemma demo_defend_player_action:
  "player_action (applyPlayerSnapshot None demo_state) demo_defend None demo_rolls
   = (demo_defending_state, [STATUS_APPLIED ''player'' ''defending'' ''turn''], demo_rolls)"
  by (simp add: player_action_def applyPlayerSnapshot_def demo_defend_def
      demo_entities demo_player_def demo_enemy_def demo_defending_state_def demo_defender_def)

lemma demo_defending_end: "end_events demo_defending_state = []"
  by (simp add: end_events_def demo_defending_state_def demo_defender_def demo_player_def
      demo_enemy_def)

lemma demo_defending_player:
  "find (\<lambda>entity. ent_type entity = Player) (entities demo_defending_state) = Some demo_defender"
  by (simp add: demo_defending_state_def demo_defender_def demo_player_def)

lemma demo_defending_living: "living_enemies demo_defending_state = [demo_enemy]"
  by (simp add: living_enemies_def demo_defending_state_def demo_defender_def demo_player_def
      demo_enemy_def)

lemma demo_twice_entities:
  "entities demo_twice_defending_state = [demo_twice_defending, demo_enemy]"
  by (simp add: demo_twice_defending_state_def startBattle_def appendLog_def Let_def)

lemma demo_attempt_player_action:
  "player_action s demo_attempt ro rnd = (s, [ATTEMPT_ACTION ''player'' None ''''], rnd)"
  by (simp add: player_action_def demo_attempt_def)

lemma demo_nameless_entities:
  "entities demo_nameless_state = [demo_player\<lparr>ent_id := ''''\<rparr>, demo_enemy]"
  by (simp add: demo_nameless_state_def startBattle_def appendLog_def Let_def)

lemma nameless_enemy_turn:
  "enemy_turn '''' [demo_enemy] s rnd = (s, [TURN_START ''enemy-0''], rnd)"
  by (simp add: resolveAttack_def demo_enemy_def)

text \<open>
  Claim C3, as stated, fails in two places. A player who carries two \<open>defending\<close> statuses,
  of durations 1 and 3, loses the first in the decay (it reaches 0), and no \<open>STATUS_REMOVED\<close>
  is emitted, because a status of the same key survives: the events of the call end with
  \<open>TURN_START\<close> of the player, while the specification's wording asks for one
  \<open>STATUS_REMOVED\<close> (\<open>expired_events\<close>). And in a battle whose player has the empty string
  as id, the living enemy starts its turn and attacks nobody: \<open>resolveAttack\<close> returns at
  once on an empty target id, and no \<open>ATTACK_RESOLVED\<close> follows \<open>TURN_START\<close> of the enemy.
\<close>

theorem turn_cycle_counterexample:
  "resolveAction (Map.empty(''c1'' \<mapsto> demo_twice_defending_state)) ''c1'' demo_attempt None None
     demo_rolls =
     Inr ((Map.empty(''c1'' \<mapsto> demo_twice_defending_state))
            (''c1'' \<mapsto> demo_twice_defending_state
               \<lparr>round_no := 2,
                entities := [demo_player\<lparr>hp := Num 18,
                                          statuses := [\<lparr>key = ''defending'', duration = 2\<rparr>]\<rparr>,
                             demo_enemy],
                event_log :=
                  [TURN_START ''player'',
                   TURN_START ''player'',
                   ATTEMPT_ACTION ''player'' None '''',
                   TURN_START ''enemy-0'',
                   ATTACK_RESOLVED ''enemy-0'' ''player'' True 15 0 15 False False 10,
                   DAMAGE_APPLIED ''player'' 2 ''enemy-0'' (Num 18),
                   TURN_START ''player'']\<rparr>),
          demo_twice_defending_state
               \<lparr>round_no := 2,
                entities := [demo_player\<lparr>hp := Num 18,
                                          statuses := [\<lparr>key = ''defending'', duration = 2\<rparr>]\<rparr>,
                             demo_enemy],
                event_log :=
                  [TURN_START ''player'',
                   TURN_START ''player'',
                   ATTEMPT_ACTION ''player'' None '''',
                   TURN_START ''enemy-0'',
                   ATTACK_RESOLVED ''enemy-0'' ''player'' True 15 0 15 False False 10,
                   DAMAGE_APPLIED ''player'' 2 ''enemy-0'' (Num 18),
                   TURN_START ''player'']\<rparr>,
          [TURN_START ''player'',
           ATTEMPT_ACTION ''player'' None '''',
           TURN_START ''enemy-0'',
           ATTACK_RESOLVED ''enemy-0'' ''player'' True 15 0 15 False False 10,
           DAMAGE_APPLIED ''player'' 2 ''enemy-0'' (Num 18),
           TURN_START ''player''],
          \<lambda>n. demo_rolls (Suc (Suc n)))
   \<and> expired_events (demo_twice_defending\<lparr>hp := Num 18\<rparr>) = [STATUS_REMOVED ''player'' ''defending'']
   \<and> living_enemies demo_nameless_state = [demo_enemy]
   \<and> resolveAction (Map.empty(''c1'' \<mapsto> demo_nameless_state)) ''c1'' demo_attempt None None
        demo_rolls =
     Inr ((Map.empty(''c1'' \<mapsto> demo_nameless_state))
            (''c1'' \<mapsto> demo_nameless_state
               \<lparr>round_no := 2,
                event_log :=
                  [TURN_START '''',
                   TURN_START ''player'',
                   ATTEMPT_ACTION ''player'' None '''',
                   TURN_START ''enemy-0'',
                   TURN_START '''']\<rparr>),
          demo_nameless_state
               \<lparr>round_no := 2,
                event_log :=
                  [TURN_START '''',
                   TURN_START ''player'',
                   ATTEMPT_ACTION ''player'' None '''',
                   TURN_START ''enemy-0'',
                   TURN_START '''']\<rparr>,
          [TURN_START ''player'',
           ATTEMPT_ACTION ''player'' None '''',
           TURN_START ''enemy-0'',
           TURN_START ''''],
          demo_rolls)"
proof -
  have a1: "(Map.empty(''c1'' \<mapsto> demo_twice_defending_state)) ''c1'' = Some demo_twice_defending_state"
    by simp
  have a2: "end_events (fst (player_action (applyPlayerSnapshot None demo_twice_defending_state)
                               demo_attempt None demo_rolls)) = []"
    by (simp add: demo_attempt_player_action applyPlayerSnapshot_def end_events_def
        demo_twice_entities demo_twice_defending_def demo_player_def demo_enemy_def)
  have a3: "find (\<lambda>entity. ent_type entity = Player)
           (entities (fst (player_action (applyPlayerSnapshot None demo_twice_defending_state)
                             demo_attempt None demo_rolls))) = Some demo_twice_defending"
    by (simp add: demo_attempt_player_action applyPlayerSnapshot_def
        demo_twice_entities demo_twice_defending_def demo_player_def)
  have en: "entities (demo_twice_defending_state\<lparr>phase := Enemy_turn\<rparr>)
              = [demo_twice_defending, demo_enemy]"
    by (simp add: demo_twice_entities)
  have idp: "ent_id demo_twice_defending = ''player''"
    by (simp add: demo_twice_defending_def demo_player_def)
  have lv: "living_enemies demo_twice_defending_state = [demo_enemy]"
    by (simp add: living_enemies_def demo_twice_entities demo_twice_defending_def demo_player_def
        demo_enemy_def)
  note t = resolveAction_cycle [where battles = "Map.empty(''c1'' \<mapsto> demo_twice_defending_state)"
        and campaignId = "''c1''", OF a1 a2 a3, unfolded Let_def, THEN conjunct1]
  have c1: "resolveAction (Map.empty(''c1'' \<mapsto> demo_twice_defending_state)) ''c1'' demo_attempt None None
     demo_rolls =
     Inr ((Map.empty(''c1'' \<mapsto> demo_twice_defending_state))
            (''c1'' \<mapsto> demo_twice_defending_state
               \<lparr>round_no := 2,
                entities := [demo_player\<lparr>hp := Num 18,
                                          statuses := [\<lparr>key = ''defending'', duration = 2\<rparr>]\<rparr>,
                             demo_enemy],
                event_log :=
                  [TURN_START ''player'',
                   TURN_START ''player'',
                   ATTEMPT_ACTION ''player'' None '''',
                   TURN_START ''enemy-0'',
                   ATTACK_RESOLVED ''enemy-0'' ''player'' True 15 0 15 False False 10,
                   DAMAGE_APPLIED ''player'' 2 ''enemy-0'' (Num 18),
                   TURN_START ''player'']\<rparr>),
          demo_twice_defending_state
               \<lparr>round_no := 2,
                entities := [demo_player\<lparr>hp := Num 18,
                                          statuses := [\<lparr>key = ''defending'', duration = 2\<rparr>]\<rparr>,
                             demo_enemy],
                event_log :=
                  [TURN_START ''player'',
                   TURN_START ''player'',
                   ATTEMPT_ACTION ''player'' None '''',
                   TURN_START ''enemy-0'',
                   ATTACK_RESOLVED ''enemy-0'' ''player'' True 15 0 15 False False 10,
                   DAMAGE_APPLIED ''player'' 2 ''enemy-0'' (Num 18),
                   TURN_START ''player'']\<rparr>,
          [TURN_START ''player'',
           ATTEMPT_ACTION ''player'' None '''',
           TURN_START ''enemy-0'',
           ATTACK_RESOLVED ''enemy-0'' ''player'' True 15 0 15 False False 10,
           DAMAGE_APPLIED ''player'' 2 ''enemy-0'' (Num 18),
           TURN_START ''player''],
          \<lambda>n. demo_rolls (Suc (Suc n)))"
    unfolding t demo_attempt_player_action fst_conv snd_conv applyPlayerSnapshot_def
      option.case lv idp demo_enemy_turn [OF en idp]
    by (simp add: demo_twice_defending_state_def demo_twice_defending_def demo_player_def
        demo_enemy_def startBattle_def appendLog_def Let_def attack_damage_def clamp_def
        decayed_def removal_events_def end_events_def demo_attempt_def)
  have c2: "expired_events (demo_twice_defending\<lparr>hp := Num 18\<rparr>) = [STATUS_REMOVED ''player'' ''defending'']"
    by (simp add: expired_events_def demo_twice_defending_def demo_player_def)
  have c3: "living_enemies demo_nameless_state = [demo_enemy]"
    by (simp add: living_enemies_def demo_nameless_entities demo_player_def demo_enemy_def)
  have b1: "(Map.empty(''c1'' \<mapsto> demo_nameless_state)) ''c1'' = Some demo_nameless_state" by simp
  have b2: "end_events (fst (player_action (applyPlayerSnapshot None demo_nameless_state)
                               demo_attempt None demo_rolls)) = []"
    by (simp add: demo_attempt_player_action applyPlayerSnapshot_def end_events_def
        demo_nameless_entities demo_player_def demo_enemy_def)
  have b3: "find (\<lambda>entity. ent_type entity = Player)
           (entities (fst (player_action (applyPlayerSnapshot None demo_nameless_state)
                             demo_attempt None demo_rolls))) = Some (demo_player\<lparr>ent_id := ''''\<rparr>)"
    by (simp add: demo_attempt_player_action applyPlayerSnapshot_def
        demo_nameless_entities demo_player_def)
  note u = resolveAction_cycle [where battles = "Map.empty(''c1'' \<mapsto> demo_nameless_state)"
        and campaignId = "''c1''", OF b1 b2 b3, unfolded Let_def, THEN conjunct1]
  have idn: "ent_id (demo_player\<lparr>ent_id := ''''\<rparr>) = ''''" by simp
  have c4: "resolveAction (Map.empty(''c1'' \<mapsto> demo_nameless_state)) ''c1'' demo_attempt None None
        demo_rolls =
     Inr ((Map.empty(''c1'' \<mapsto> demo_nameless_state))
            (''c1'' \<mapsto> demo_nameless_state
               \<lparr>round_no := 2,
                event_log :=
                  [TURN_START '''',
                   TURN_START ''player'',
                   ATTEMPT_ACTION ''player'' None '''',
                   TURN_START ''enemy-0'',
                   TURN_START '''']\<rparr>),
          demo_nameless_state
               \<lparr>round_no := 2,
                event_log :=
                  [TURN_START '''',
                   TURN_START ''player'',
                   ATTEMPT_ACTION ''player'' None '''',
                   TURN_START ''enemy-0'',
                   TURN_START '''']\<rparr>,
          [TURN_START ''player'',
           ATTEMPT_ACTION ''player'' None '''',
           TURN_START ''enemy-0'',
           TURN_START ''''],
          demo_rolls)"
    unfolding u demo_attempt_player_action fst_conv snd_conv applyPlayerSnapshot_def
      option.case c3 idn nameless_enemy_turn
    by (simp add: demo_nameless_state_def demo_player_def
        demo_enemy_def startBattle_def appendLog_def Let_def
        decayed_def removal_events_def end_events_def demo_attempt_def)
  show ?thesis using c1 c2 c3 c4 by (intro conjI)
qed

text \<open>
  Claim C3, amended. When the end check after the player's action does not end the combat,
  one call of \<open>resolveAction\<close> does, in this order, what the returned events and state
  show. First the player's action (\<open>player_action\<close>: the events of the chosen action after
  \<open>TURN_START\<close> of the actor). Then the turn of every living enemy in roster order
  (\<open>enemy_turn\<close>: \<open>TURN_START\<close> of the enemy, then its attack through \<open>resolveAttack\<close> with
  the player's id as target, on the state the earlier attacks left); the events show one
  resolved attack of each living enemy on the player, except that no attack is resolved
  when the player's id is the empty string. Then \<open>TURN_START\<close> of the player; the round
  counter is one more than before; every entity's statuses are those after the enemy turn
  with every duration decremented by 1 and the statuses whose duration reached 0 or less
  removed; \<open>STATUS_REMOVED\<close> is emitted for every status none of whose namesakes survives,
  which is one event for every removed status when no entity carries two statuses of one
  key. Last the end check, on the state after the decay, whose event closes the list and
  whose outcome is the phase. The state is stored with these events appended to its log.
\<close>

theorem resolveAction_turn_cycle:
  assumes "battles campaignId = Some st"
    and "end_events (fst (player_action (applyPlayerSnapshot playerSnapshot st) intent
                            rollOverrides rnd)) = []"
    and "find (\<lambda>entity. ent_type entity = Player)
           (entities (fst (player_action (applyPlayerSnapshot playerSnapshot st) intent
                             rollOverrides rnd))) = Some pl"
  shows "let acted = player_action (applyPlayerSnapshot playerSnapshot st) intent rollOverrides rnd;
             s1 = fst acted;
             turn = enemy_turn (ent_id pl) (living_enemies s1) (s1\<lparr>phase := Enemy_turn\<rparr>)
                      (snd (snd acted));
             s2 = fst turn;
             s3 = s2\<lparr>round_no := round_no st + 1, entities := map decayed (entities s2)\<rparr>;
             events = TURN_START (actor intent) # fst (snd acted) @ fst (snd turn)
                        @ [TURN_START (ent_id pl)]
                        @ concat (map removal_events (entities s2)) @ end_events s3;
             final = appendLog (s3\<lparr>phase := (if end_events s3 = [] then Player_turn else Ended)\<rparr>)
                       events
         in resolveAction battles campaignId intent playerSnapshot rollOverrides rnd =
              Inr (battles(campaignId \<mapsto> final), final, events, snd (snd turn))
          \<and> steps (fst (snd turn)) =
              concat (map (\<lambda>e. Turn (ent_id e)
                                 # (if ent_id pl = [] then [] else [Attacks (ent_id e) (ent_id pl)]))
                        (living_enemies s1))
          \<and> ((\<forall>e \<in> set (entities s2). distinct (map key (statuses e)))
               \<longrightarrow> concat (map removal_events (entities s2)) = concat (map expired_events (entities s2)))"
  using assms by (rule resolveAction_cycle)

theorem resolveAction_turn_cycle_witness:
  "(Map.empty(''c1'' \<mapsto> demo_state)) ''c1'' = Some demo_state
   \<and> end_events (fst (player_action (applyPlayerSnapshot None demo_state) demo_defend
                          None demo_rolls)) = []
   \<and> find (\<lambda>entity. ent_type entity = Player)
         (entities (fst (player_action (applyPlayerSnapshot None demo_state) demo_defend
                           None demo_rolls))) = Some demo_defender
   \<and> resolveAction (Map.empty(''c1'' \<mapsto> demo_state)) ''c1'' demo_defend None None demo_rolls =
        Inr ((Map.empty(''c1'' \<mapsto> demo_state))
               (''c1'' \<mapsto> demo_state\<lparr>round_no := 2,
                              entities := [demo_player\<lparr>hp := Num 18\<rparr>, demo_enemy],
                              event_log :=
                                [TURN_START ''player'',
                                 TURN_START ''player'',
                                 STATUS_APPLIED ''player'' ''defending'' ''turn'',
                                 TURN_START ''enemy-0'',
                                 ATTACK_RESOLVED ''enemy-0'' ''player'' True 15 0 15 False False 10,
                                 DAMAGE_APPLIED ''player'' 2 ''enemy-0'' (Num 18),
                                 TURN_START ''player'',
                                 STATUS_REMOVED ''player'' ''defending'']\<rparr>),
             demo_state\<lparr>round_no := 2,
                              entities := [demo_player\<lparr>hp := Num 18\<rparr>, demo_enemy],
                              event_log :=
                                [TURN_START ''player'',
                                 TURN_START ''player'',
                                 STATUS_APPLIED ''player'' ''defending'' ''turn'',
                                 TURN_START ''enemy-0'',
                                 ATTACK_RESOLVED ''enemy-0'' ''player'' True 15 0 15 False False 10,
                                 DAMAGE_APPLIED ''player'' 2 ''enemy-0'' (Num 18),
                                 TURN_START ''player'',
                                 STATUS_REMOVED ''player'' ''defending'']\<rparr>,
             [TURN_START ''player'',
              STATUS_APPLIED ''player'' ''defending'' ''turn'',
              TURN_START ''enemy-0'',
              ATTACK_RESOLVED ''enemy-0'' ''player'' True 15 0 15 False False 10,
              DAMAGE_APPLIED ''player'' 2 ''enemy-0'' (Num 18),
              TURN_START ''player'',
              STATUS_REMOVED ''player'' ''defending''],
             \<lambda>n. demo_rolls (Suc (Suc n)))
   \<and> steps [TURN_START ''enemy-0'',
             ATTACK_RESOLVED ''enemy-0'' ''player'' True 15 0 15 False False 10,
             DAMAGE_APPLIED ''player'' 2 ''enemy-0'' (Num 18)]
       = [Turn ''enemy-0'', Attacks ''enemy-0'' ''player'']"
proof -
  have h1: "(Map.empty(''c1'' \<mapsto> demo_state)) ''c1'' = Some demo_state" by simp
  have h2: "end_events (fst (player_action (applyPlayerSnapshot None demo_state) demo_defend
                            None demo_rolls)) = []"
    by (simp add: demo_defend_player_action demo_defending_end)
  have h3: "find (\<lambda>entity. ent_type entity = Player)
           (entities (fst (player_action (applyPlayerSnapshot None demo_state) demo_defend
                             None demo_rolls))) = Some demo_defender"
    by (simp add: demo_defend_player_action demo_defending_player)
  have en: "entities (demo_defending_state\<lparr>phase := Enemy_turn\<rparr>) = [demo_defender, demo_enemy]"
    by (simp add: demo_defending_state_def)
  have idp: "ent_id demo_defender = ''player''" by (simp add: demo_defender_def demo_player_def)
  note t = resolveAction_turn_cycle [where battles = "Map.empty(''c1'' \<mapsto> demo_state)"
        and campaignId = "''c1''", OF h1 h2 h3, unfolded Let_def]
  have r: "resolveAction (Map.empty(''c1'' \<mapsto> demo_state)) ''c1'' demo_defend None None demo_rolls =
       Inr ((Map.empty(''c1'' \<mapsto> demo_state))
              (''c1'' \<mapsto> demo_state\<lparr>round_no := 2,
                             entities := [demo_player\<lparr>hp := Num 18\<rparr>, demo_enemy],
                             event_log :=
                               [TURN_START ''player'',
                                TURN_START ''player'',
                                STATUS_APPLIED ''player'' ''defending'' ''turn'',
                                TURN_START ''enemy-0'',
                                ATTACK_RESOLVED ''enemy-0'' ''player'' True 15 0 15 False False 10,
                                DAMAGE_APPLIED ''player'' 2 ''enemy-0'' (Num 18),
                                TURN_START ''player'',
                                STATUS_REMOVED ''player'' ''defending'']\<rparr>),
            demo_state\<lparr>round_no := 2,
                             entities := [demo_player\<lparr>hp := Num 18\<rparr>, demo_enemy],
                             event_log :=
                               [TURN_START ''player'',
                                TURN_START ''player'',
                                STATUS_APPLIED ''player'' ''defending'' ''turn'',
                                TURN_START ''enemy-0'',
                                ATTACK_RESOLVED ''enemy-0'' ''player'' True 15 0 15 False False 10,
                                DAMAGE_APPLIED ''player'' 2 ''enemy-0'' (Num 18),
                                TURN_START ''player'',
                                STATUS_REMOVED ''player'' ''defending'']\<rparr>,
            [TURN_START ''player'',
             STATUS_APPLIED ''player'' ''defending'' ''turn'',
             TURN_START ''enemy-0'',
             ATTACK_RESOLVED ''enemy-0'' ''player'' True 15 0 15 False False 10,
             DAMAGE_APPLIED ''player'' 2 ''enemy-0'' (Num 18),
             TURN_START ''player'',
             STATUS_REMOVED ''player'' ''defending''],
            \<lambda>n. demo_rolls (Suc (Suc n)))"
    unfolding t [THEN conjunct1] demo_defend_player_action fst_conv snd_conv demo_defending_living idp
      demo_enemy_turn [OF en idp]
    by (simp add: demo_defending_state_def demo_defender_def demo_player_def demo_enemy_def
        demo_state_def startBattle_def appendLog_def Let_def attack_damage_def clamp_def
        decayed_def removal_events_def end_events_def demo_defend_def)
  have s: "steps [TURN_START ''enemy-0'',
             ATTACK_RESOLVED ''enemy-0'' ''player'' True 15 0 15 False False 10,
             DAMAGE_APPLIED ''player'' 2 ''enemy-0'' (Num 18)]
       = [Turn ''enemy-0'', Attacks ''enemy-0'' ''player'']"
    using t [THEN conjunct2, THEN conjunct1]
    unfolding demo_defend_player_action fst_conv snd_conv demo_defending_living idp
      demo_enemy_turn [OF en idp]
    by (simp add: demo_defender_def demo_player_def demo_enemy_def attack_damage_def clamp_def)
  show ?thesis using h1 h2 h3 r s by (intro conjI)
qed

lemma demo_NaN_player:
  "applyPlayerSnapshot (Some demo_NaN_snapshot) demo_state =
     demo_state\<lparr>entities := [demo_player\<lparr>hp := NaN\<rparr>, demo_enemy]\<rparr>"
  by (simp add: applyPlayerSnapshot_def applySnapshot_def demo_NaN_snapshot_def demo_entities
      demo_player_def clamp_def Let_def)

text \<open>
  Claim C4 (the code at the failing input). Every entity of the sample battle satisfies
  \<open>0 \<le> hp \<le> hp_max\<close>. A call of \<open>resolveAction\<close> with the player snapshot \<open>{hp: NaN}\<close>
  passes the guard \<open>typeof playerSnapshot.hp === 'number'\<close> and assigns
  \<open>clamp(NaN, 0, 20)\<close>, which is \<open>NaN\<close>, to the player's hit points; the enemy's hit for 5
  leaves them \<open>NaN\<close>, and the returned and stored state has a player for whom
  \<open>0 \<le> hp\<close> is false.
\<close>

theorem resolveAction_snapshot_NaN:
  "list_all (\<lambda>e. js_le (Num 0) (hp e) \<and> js_le (hp e) (hp_max e)) (entities demo_state)
   \<and> resolveAction (Map.empty(''c1'' \<mapsto> demo_state)) ''c1'' demo_attempt
        (Some demo_NaN_snapshot) None demo_rolls =
     Inr ((Map.empty(''c1'' \<mapsto> demo_state))
            (''c1'' \<mapsto> demo_state
               \<lparr>round_no := 2,
                entities := [demo_player\<lparr>hp := NaN\<rparr>, demo_enemy],
                event_log :=
                  [TURN_START ''player'',
                   TURN_START ''player'',
                   ATTEMPT_ACTION ''player'' None '''',
                   TURN_START ''enemy-0'',
                   ATTACK_RESOLVED ''enemy-0'' ''player'' True 15 0 15 False False 10,
                   DAMAGE_APPLIED ''player'' 5 ''enemy-0'' NaN,
                   TURN_START ''player'']\<rparr>),
          demo_state
               \<lparr>round_no := 2,
                entities := [demo_player\<lparr>hp := NaN\<rparr>, demo_enemy],
                event_log :=
                  [TURN_START ''player'',
                   TURN_START ''player'',
                   ATTEMPT_ACTION ''player'' None '''',
                   TURN_START ''enemy-0'',
                   ATTACK_RESOLVED ''enemy-0'' ''player'' True 15 0 15 False False 10,
                   DAMAGE_APPLIED ''player'' 5 ''enemy-0'' NaN,
                   TURN_START ''player'']\<rparr>,
          [TURN_START ''player'',
           ATTEMPT_ACTION ''player'' None '''',
           TURN_START ''enemy-0'',
           ATTACK_RESOLVED ''enemy-0'' ''player'' True 15 0 15 False False 10,
           DAMAGE_APPLIED ''player'' 5 ''enemy-0'' NaN,
           TURN_START ''player''],
          \<lambda>n. demo_rolls (Suc (Suc n)))
   \<and> \<not> js_le (Num 0) (hp (demo_player\<lparr>hp := NaN\<rparr>))"
proof -
  have a1: "(Map.empty(''c1'' \<mapsto> demo_state)) ''c1'' = Some demo_state" by simp
  have a2: "end_events (fst (player_action (applyPlayerSnapshot (Some demo_NaN_snapshot) demo_state)
                               demo_attempt None demo_rolls)) = []"
    by (simp add: demo_attempt_player_action demo_NaN_player end_events_def
        demo_player_def demo_enemy_def)
  have a3: "find (\<lambda>entity. ent_type entity = Player)
           (entities (fst (player_action (applyPlayerSnapshot (Some demo_NaN_snapshot) demo_state)
                             demo_attempt None demo_rolls))) = Some (demo_player\<lparr>hp := NaN\<rparr>)"
    by (simp add: demo_attempt_player_action demo_NaN_player demo_player_def)
  have en: "entities (demo_state\<lparr>entities := [demo_player\<lparr>hp := NaN\<rparr>, demo_enemy], phase := Enemy_turn\<rparr>)
              = [demo_player\<lparr>hp := NaN\<rparr>, demo_enemy]"
    by simp
  have idp: "ent_id (demo_player\<lparr>hp := NaN\<rparr>) = ''player''"
    by (simp add: demo_player_def)
  have lv: "living_enemies (demo_state\<lparr>entities := [demo_player\<lparr>hp := NaN\<rparr>, demo_enemy]\<rparr>) = [demo_enemy]"
    by (simp add: living_enemies_def demo_player_def demo_enemy_def)
  note t = resolveAction_cycle [where battles = "Map.empty(''c1'' \<mapsto> demo_state)"
        and campaignId = "''c1''", OF a1 a2 a3, unfolded Let_def, THEN conjunct1]
  have c0: "list_all (\<lambda>e. js_le (Num 0) (hp e) \<and> js_le (hp e) (hp_max e)) (entities demo_state)"
    by (simp add: demo_entities demo_player_def demo_enemy_def)
  have c1: "resolveAction (Map.empty(''c1'' \<mapsto> demo_state)) ''c1'' demo_attempt
        (Some demo_NaN_snapshot) None demo_rolls =
     Inr ((Map.empty(''c1'' \<mapsto> demo_state))
            (''c1'' \<mapsto> demo_state
               \<lparr>round_no := 2,
                entities := [demo_player\<lparr>hp := NaN\<rparr>, demo_enemy],
                event_log :=
                  [TURN_START ''player'',
                   TURN_START ''player'',
                   ATTEMPT_ACTION ''player'' None '''',
                   TURN_START ''enemy-0'',
                   ATTACK_RESOLVED ''enemy-0'' ''player'' True 15 0 15 False False 10,
                   DAMAGE_APPLIED ''player'' 5 ''enemy-0'' NaN,
                   TURN_START ''player'']\<rparr>),
          demo_state
               \<lparr>round_no := 2,
                entities := [demo_player\<lparr>hp := NaN\<rparr>, demo_enemy],
                event_log :=
                  [TURN_START ''player'',
                   TURN_START ''player'',
                   ATTEMPT_ACTION ''player'' None '''',
                   TURN_START ''enemy-0'',
                   ATTACK_RESOLVED ''enemy-0'' ''player'' True 15 0 15 False False 10,
                   DAMAGE_APPLIED ''player'' 5 ''enemy-0'' NaN,
                   TURN_START ''player'']\<rparr>,
          [TURN_START ''player'',
           ATTEMPT_ACTION ''player'' None '''',
           TURN_START ''enemy-0'',
           ATTACK_RESOLVED ''enemy-0'' ''player'' True 15 0 15 False False 10,
           DAMAGE_APPLIED ''player'' 5 ''enemy-0'' NaN,
           TURN_START ''player''],
          \<lambda>n. demo_rolls (Suc (Suc n)))"
    unfolding t demo_attempt_player_action fst_conv snd_conv demo_NaN_player lv idp
      demo_enemy_turn [OF en idp]
    by (simp add: demo_state_def demo_player_def
        demo_enemy_def startBattle_def appendLog_def Let_def attack_damage_def clamp_def
        decayed_def removal_events_def end_events_def demo_attempt_def)
  have c2: "\<not> js_le (Num 0) (hp (demo_player\<lparr>hp := NaN\<rparr>))" by simp
  show ?thesis using c0 c1 c2 by (intro conjI)
qed

section \<open>Properties of the intent annotator and the status normalizer\<close>

text \<open>
  The five assignments of \<open>annotateSegments\<close> leave the hint of the source's priority: a
  request marker is tested after a speech marker and under the same guard, so it wins.
\<close>

lemma annotate_hint:
  "hint (annotateSegment lra segment) = Some (code_hint (seg_text segment))"
  by (simp add: annotateSegment_def Let_def mark_def code_hint_def)

lemma demo_text_speech: "detectSpeech ''I ask for ale''"
  by code_simp

lemma demo_text_request: "detectRequest ''I ask for ale''"
  by code_simp

lemma demo_text_not_past: "\<not> detectPastRef ''I ask for ale''"
  by code_simp

text \<open>
  Claim C7, as stated, fails: the text \<open>I ask for ale\<close> matches a speech marker and a request
  marker and no past-reference marker, and \<open>annotateSegments\<close> tags it \<open>REQUEST\<close>, where the
  priority of the claim gives \<open>SPEECH\<close>.
\<close>

theorem annotate_speech_request_counterexample:
  "detectSpeech (seg_text demo_segment) \<and> detectRequest (seg_text demo_segment)
   \<and> \<not> detectPastRef (seg_text demo_segment)
   \<and> map hint (annotateSegments [demo_segment] None) = [Some REQUEST]
   \<and> spec_hint (seg_text demo_segment) = SPEECH"
  by (simp add: demo_segment_def annotateSegments_def annotate_hint code_hint_def spec_hint_def
      demo_text_speech demo_text_request demo_text_not_past)

text \<open>
  Claim C7, amended. For every segment, \<open>annotateSegments\<close> assigns the hint by the fixed
  priority \<open>PAST_REF > REQUEST > SPEECH > ACTION_NOW > UNKNOWN\<close>; in particular a segment whose
  text matches both a speech marker and a request marker, and no past-reference marker,
  is tagged \<open>REQUEST\<close>.
\<close>

theorem annotateSegments_priority:
  "map hint (annotateSegments segments lra) = map (\<lambda>s. Some (code_hint (seg_text s))) segments
   \<and> (\<forall>s \<in> set segments.
         detectSpeech (seg_text s) \<and> detectRequest (seg_text s) \<and> \<not> detectPastRef (seg_text s)
         \<longrightarrow> hint (annotateSegment lra s) = Some REQUEST)"
  by (simp add: annotateSegments_def annotate_hint code_hint_def)

theorem annotateSegments_priority_witness:
  "map hint (annotateSegments [demo_segment] None) = [Some REQUEST]
   \<and> detectSpeech (seg_text demo_segment) \<and> detectRequest (seg_text demo_segment)
   \<and> \<not> detectPastRef (seg_text demo_segment)
   \<and> hint (annotateSegment None demo_segment) = Some REQUEST"
proof -
  have d: "detectSpeech (seg_text demo_segment) \<and> detectRequest (seg_text demo_segment)
     \<and> \<not> detectPastRef (seg_text demo_segment)"
    by (simp add: demo_segment_def demo_text_speech demo_text_request demo_text_not_past)
  have h: "hint (annotateSegment None demo_segment) = Some REQUEST"
    using annotateSegments_priority [of "[demo_segment]" None] d by simp
  have m: "map hint (annotateSegments [demo_segment] None) = [Some REQUEST]"
    using h by (simp add: annotateSegments_def)
  show ?thesis using d h m by simp
qed

text \<open>The proposal passes every check of \<open>normalizeEntry\<close> and comes out under the
  canonical id.\<close>

lemma demo_normalizeEntry:
  "map_option st_id (normalizeEntry (Some demo_proposal)) = Some ''poisoned''"
  by code_simp

text \<open>
  Claim C8 (the code at the failing input). \<open>poisoned\<close> is active and the payload proposes
  to apply \<open>Poisoned\<close>: the filter on the active ids compares the id as proposed, before
  \<open>normalizeEntry\<close> trims and lower-cases it, so the entry passes and is returned in
  \<open>apply\<close> under the id \<open>poisoned\<close>, which is already active.
\<close>

theorem normalizeStatusUpdate_reapplies_active:
  "map st_id (out_apply (normalizeStatusUpdate (Some demo_payload) demo_status_state)) = [''poisoned'']
   \<and> map st_id (case active_statuses demo_status_state of None \<Rightarrow> [] | Some l \<Rightarrow> l) = [''poisoned'']"
  by code_simp

text \<open>The part of claim C8 on the number of entries holds: \<open>apply\<close> has at most one.\<close>

lemma map_filter_length: "length (List.map_filter f xs) \<le> length xs"
  by (simp add: List.map_filter_def)

lemma pruned_at_most_one:
  "length (List.map_filter f (if length xs > 1 then take 1 xs else xs)) \<le> 1"
proof -
  have "length (if length xs > 1 then take 1 xs else xs) \<le> 1" by auto
  then show ?thesis using map_filter_length [of f "if length xs > 1 then take 1 xs else xs"]
    by linarith
qed

lemma normalizeStatusUpdate_at_most_one:
  "length (out_apply (normalizeStatusUpdate payload statusState)) \<le> 1"
  unfolding normalizeStatusUpdate_def Let_def
  by (simp only: StatusUpdatePayload.select_convs pruned_at_most_one)

section \<open>Properties of the route \<open>/dm-response\<close>\<close>




















lemma filter_key_absent:
  "k \<notin> fst ` set xs \<Longrightarrow> filter (\<lambda>entry. fst entry = k) xs = []"
  by (induction xs) auto







lemma filter_key_map_of:
  "distinct (map fst xs)
   \<Longrightarrow> map snd (filter (\<lambda>entry. fst entry = k) xs) = (case map_of xs k of None \<Rightarrow> [] | Some p \<Rightarrow> [p])"
proof (induction xs)
  case Nil
  then show ?case by simp
next
  case (Cons x xs)
  show ?case
  proof (cases "fst x = k")
    case True
    then have "k \<notin> fst ` set xs" using Cons.prems by auto
    then show ?thesis using True by (simp add: filter_key_absent)
  next
    case False
    then show ?thesis using Cons by (cases x) simp
  qed
qed

lemma map_of_checksOf:
  "distinct (map fst (pendingChecks st))
   \<Longrightarrow> checksOf st k = (case map_of (pendingChecks st) k of None \<Rightarrow> [] | Some p \<Rightarrow> [p])"
  unfolding checksOf_def by (rule filter_key_map_of)





































end
